theory Spec2Isabelle
  imports Complex_Main "HOL-Library.Sublist"
begin

section \<open>Data model of the simulation context\<close>

text \<open>
  JavaScript numbers that are computed by the code are finite reals plus the three special
  values a division can produce. Cell values and test statistics are finite numbers and are
  modelled as \<open>real\<close> (rounding of IEEE doubles is not modelled); \<open>null\<close> is \<open>None\<close>.
\<close>

datatype jsnum = Num real | PosInf | NegInf | NaN

fun js_less :: "jsnum \<Rightarrow> jsnum \<Rightarrow> bool" where
  "js_less NaN _ = False"
| "js_less _ NaN = False"
| "js_less (Num a) (Num b) = (a < b)"
| "js_less NegInf NegInf = False"
| "js_less NegInf _ = True"
| "js_less _ NegInf = False"
| "js_less PosInf _ = False"
| "js_less _ PosInf = True"

text \<open>\<open>a / b\<close> for two array lengths (non-negative integers).\<close>

definition js_div_count :: "nat \<Rightarrow> nat \<Rightarrow> jsnum" where
  "js_div_count a b =
     (if b = 0 then (if a = 0 then NaN else PosInf) else Num (real a / real b))"

text \<open>
  Row objects are the only objects the reducer mutates in place (in \<open>ADD_ROW\<close>), and the
  same row object is shared by the current table and by the snapshots on the history
  stacks. Rows therefore live in an object store; a table refers to its rows by
  address. Arrays, tables and columns are never mutated after creation and are values.
\<close>

type_synonym ref = nat

record DataRow =
  data :: "real option list"
  assignment :: "int option"
  block :: "string option"

record Column =
  name :: string
  color :: string

record UserDataState =
  columns :: "Column list"
  rows :: "ref list"
  colorStack :: "string list"

datatype ExperimentalTestStatistic = DifferenceInMeans | WilcoxonRankSum

datatype PValueType = TwoTailed | LeftTailed | RightTailed

record Settings =
  simulationSpeed :: real
  selectedTestStatistic :: ExperimentalTestStatistic
  totalSimulations :: real
  pValueType :: PValueType
  blockingEnabled :: bool

record Results =
  simulationResults :: "DataRow list list"
  pValue :: "jsnum option"
  observedStatistic :: "real option"

text \<open>The \<open>message\<close> of an \<open>ErrorState\<close>, one constructor per message text of the reducer.\<close>

datatype ErrorState =
    PayloadRequired             \<comment> \<open>'User data payload is required'\<close>
  | InvalidRowIndex int         \<comment> \<open>'Invalid row index i'\<close>
  | InvalidColumnIndex int      \<comment> \<open>'Invalid column index i'\<close>
  | InvalidAssignment int       \<comment> \<open>'Invalid assignment a'\<close>
  | EmptyColumnName             \<comment> \<open>'New column name cannot be empty'\<close>
  | OnlyTwoColumns              \<comment> \<open>'Cannot remove column when there are only two columns'\<close>
  | InvalidSimulationSpeed real
  | InvalidTestStatistic ExperimentalTestStatistic
  | InvalidTotalSimulations real
  | InvalidPValueType PValueType
  | AlreadyRunning              \<comment> \<open>'Simulation is already running'\<close>
  | InsufficientData            \<comment> \<open>'Cannot start simulation with insufficient data. ...'\<close>
  | NotRunning                  \<comment> \<open>'No simulation is currently running'\<close>
  | InvalidPValue jsnum
  | NothingToUndo               \<comment> \<open>'No more actions to undo'\<close>
  | NothingToRedo               \<comment> \<open>'No more actions to redo'\<close>
  | UnhandledAction string

record SimulationState =
  heap :: "DataRow list"        \<comment> \<open>the object store: address \<open>a\<close> holds \<open>heap ! a\<close>\<close>
  past :: "UserDataState list"
  future :: "UserDataState list"
  userData :: UserDataState     \<comment> \<open>\<open>state.data.userData\<close>\<close>
  settings :: Settings
  isSimulating :: bool          \<comment> \<open>\<open>state.control.isSimulating\<close>\<close>
  results :: Results
  error :: "ErrorState option"

datatype SimulationAction =
    SET_USER_DATA "UserDataState option"
  | RESET_USER_DATA
  | EMPTY_USER_DATA
  | ADD_ROW
  | DELETE_ROW int
  | UPDATE_CELL int int "real option"
  | SET_BLOCK int "string option"
  | SET_ASSIGNMENT int "int option"
  | RENAME_COLUMN int string
  | ADD_COLUMN string
  | REMOVE_COLUMN int
  | SET_SIMULATION_SPEED real
  | SET_SELECTED_TEST_STATISTIC ExperimentalTestStatistic
  | SET_TOTAL_SIMULATIONS real
  | SET_P_VALUE_TYPE PValueType
  | START_SIMULATION
  | PAUSE_SIMULATION
  | CLEAR_SIMULATION_DATA
  | SET_SIMULATION_RESULTS "DataRow list list"
  | SET_P_VALUE jsnum
  | SET_OBSERVED_STATISTIC "real option"
  | SET_BLOCKING_ENABLED bool
  | UNDO
  | REDO
  | OTHER_ACTION string

datatype exn = TypeError | Error string

section \<open>Helpers of the reducer\<close>

text \<open>
  Modelled from the spec: \<open>emptyRow\<close> (imported from \<open>./utils\<close>, not among the sources) is the
  "fresh empty row": every cell absent, assignment absent, block absent.
\<close>

definition emptyRow :: "nat \<Rightarrow> DataRow" where
  "emptyRow columnCount = \<lparr>data = replicate columnCount None, assignment = None, block = None\<rparr>"

text \<open>Creating one object, and one object per element of \<open>xs.map(x => ({...}))\<close>.\<close>

definition alloc :: "DataRow list \<Rightarrow> DataRow \<Rightarrow> ref \<times> DataRow list" where
  "alloc h r = (length h, h @ [r])"

definition alloc_map :: "DataRow list \<Rightarrow> (DataRow \<Rightarrow> DataRow) \<Rightarrow> ref list \<Rightarrow> ref list \<times> DataRow list" where
  "alloc_map h f as = ([length h ..< length h + length as], h @ map (\<lambda>a. f (h ! a)) as)"

text \<open>\<open>xs.filter((_, index) => index !== i)\<close>\<close>

definition remove_index :: "int \<Rightarrow> 'a list \<Rightarrow> 'a list" where
  "remove_index i xs = map snd (filter (\<lambda>(j, x). int j \<noteq> i) (enumerate 0 xs))"

text \<open>
  \<open>String.prototype.trim\<close> strips white space from both ends, so \<open>s.trim() === ''\<close> holds
  exactly when every character of \<open>s\<close> is white space (tab, LF, VT, FF, CR, space, and the
  no-break space of Latin-1).
\<close>

definition js_whitespace :: "char \<Rightarrow> bool" where
  "js_whitespace c = (of_char c \<in> {9, 10, 11, 12, 13, 32, 160 :: nat})"

definition blank_name :: "string \<Rightarrow> bool" where
  "blank_name s = (s = [] \<or> list_all js_whitespace s)"

definition validateSimulationSpeed :: "real \<Rightarrow> bool" where
  "validateSimulationSpeed speed = (speed \<ge> 1 \<and> speed \<le> 100)"

definition validateTotalSimulations :: "real \<Rightarrow> bool" where
  "validateTotalSimulations totalN = (totalN \<ge> 1 \<and> totalN \<le> 10000)"

definition validateSelectedTestStatistic :: "ExperimentalTestStatistic \<Rightarrow> bool" where
  "validateSelectedTestStatistic stat = (stat \<in> set [DifferenceInMeans, WilcoxonRankSum])"

definition validatePValueType :: "PValueType \<Rightarrow> bool" where
  "validatePValueType t = (t \<in> set [TwoTailed, LeftTailed, RightTailed])"

text \<open>The registry's capability flag: both registered statistics carry \<open>false\<close>.\<close>

fun supportsMultipleTreatments :: "ExperimentalTestStatistic \<Rightarrow> bool" where
  "supportsMultipleTreatments DifferenceInMeans = False"
| "supportsMultipleTreatments WilcoxonRankSum = False"

definition testStatistics_keys :: "ExperimentalTestStatistic list" where
  "testStatistics_keys = [DifferenceInMeans, WilcoxonRankSum]"

definition updateHistory :: "SimulationState \<Rightarrow> UserDataState \<Rightarrow> SimulationState" where
  "updateHistory state newUserData =
     state\<lparr>past := past state @ [userData state], future := [], userData := newUserData\<rparr>"

definition setError :: "SimulationState \<Rightarrow> ErrorState \<Rightarrow> SimulationState" where
  "setError state m = state\<lparr>error := Some m\<rparr>"

text \<open>\<open>row.data.every(cell => cell !== null) && row.assignment !== null\<close>\<close>

definition completeRow :: "DataRow \<Rightarrow> bool" where
  "completeRow row = (list_all (\<lambda>cell. cell \<noteq> None) (data row) \<and> assignment row \<noteq> None)"

section \<open>The reducer\<close>

text \<open>
  \<open>INITIAL\<close> stands for the module constant \<open>INITIAL_STATE.data.userData\<close> (defined in
  \<open>./constants\<close>, not among the sources); its rows are objects of the same store. The
  result is \<open>Inl\<close> when the reducer throws.
\<close>

fun simulationReducer ::
  "UserDataState \<Rightarrow> SimulationState \<Rightarrow> SimulationAction \<Rightarrow> exn + SimulationState" where
  "simulationReducer INITIAL state (SET_USER_DATA payload) =
     (case payload of
        None \<Rightarrow> Inr (setError state PayloadRequired)
      | Some newUserData \<Rightarrow> Inr ((updateHistory state newUserData)\<lparr>error := None\<rparr>))"
| "simulationReducer INITIAL state RESET_USER_DATA =
     Inr ((updateHistory state INITIAL)
            \<lparr>results := \<lparr>simulationResults = [], pValue = None, observedStatistic = None\<rparr>,
             error := None\<rparr>)"
| "simulationReducer INITIAL state EMPTY_USER_DATA =
     (let ud = userData state;
          (emptyRows, h) = alloc_map (heap state)
             (\<lambda>row. \<lparr>data = map (\<lambda>_. None) (columns ud), assignment = assignment row, block = None\<rparr>)
             (rows ud)
      in Inr ((updateHistory (state\<lparr>heap := h\<rparr>) (ud\<lparr>rows := emptyRows\<rparr>))\<lparr>error := None\<rparr>))"
| "simulationReducer INITIAL state ADD_ROW =
     (let ud = userData state;
          (newRow, h1) = alloc (heap state) (emptyRow (length (columns ud)));
          newRows = rows ud
      in if newRows = [] then Inl TypeError
         else
           let lastRef = last newRows;
               h2 = h1[lastRef := (h1 ! lastRef)\<lparr>assignment := Some 1\<rparr>]
           in Inr ((updateHistory (state\<lparr>heap := h2\<rparr>) (ud\<lparr>rows := newRows @ [newRow]\<rparr>))
                     \<lparr>error := None\<rparr>))"
| "simulationReducer INITIAL state (DELETE_ROW payload) =
     (let ud = userData state in
      if payload < 0 \<or> payload \<ge> int (length (rows ud))
      then Inr (setError state (InvalidRowIndex payload))
      else Inr ((updateHistory state (ud\<lparr>rows := remove_index payload (rows ud)\<rparr>))
                  \<lparr>error := None\<rparr>))"
| "simulationReducer INITIAL state (UPDATE_CELL rowIndex columnIndex v) =
     (let ud = userData state in
      if rowIndex < 0 \<or> rowIndex \<ge> int (length (rows ud))
      then Inr (setError state (InvalidRowIndex rowIndex))
      else if columnIndex < 0 \<or> columnIndex \<ge> int (length (columns ud))
      then Inr (setError state (InvalidColumnIndex columnIndex))
      else
        let isLastRow = (rowIndex = int (length (rows ud)) - 1);
            row = heap state ! (rows ud ! nat rowIndex);
            updatedRow = row\<lparr>data := take (nat columnIndex) (data row) @ [v]
                                         @ drop (nat columnIndex + 1) (data row)\<rparr>;
            updatedRow = (if isLastRow then updatedRow\<lparr>assignment := Some columnIndex\<rparr>
                          else updatedRow);
            (a, h1) = alloc (heap state) updatedRow;
            updatedRows = (rows ud)[nat rowIndex := a];
            (updatedRows, h2) =
               (if isLastRow \<and> v \<noteq> None
                then (let (b, h) = alloc h1 (emptyRow (length (columns ud)))
                      in (updatedRows @ [b], h))
                else (updatedRows, h1))
        in Inr ((updateHistory (state\<lparr>heap := h2\<rparr>) (ud\<lparr>rows := updatedRows\<rparr>))
                  \<lparr>error := None\<rparr>))"
| "simulationReducer INITIAL state (SET_BLOCK rowIndex blk) =
     (let ud = userData state in
      if rowIndex < 0 \<or> rowIndex \<ge> int (length (rows ud))
      then Inr (setError state (InvalidRowIndex rowIndex))
      else
        let row = heap state ! (rows ud ! nat rowIndex);
            (a, h1) = alloc (heap state) (row\<lparr>block := blk\<rparr>);
            updatedRows = (rows ud)[nat rowIndex := a]
        in Inr ((updateHistory (state\<lparr>heap := h1\<rparr>) (ud\<lparr>rows := updatedRows\<rparr>))
                  \<lparr>error := None\<rparr>))"
| "simulationReducer INITIAL state (SET_ASSIGNMENT rowIndex asg) =
     (let ud = userData state in
      if rowIndex < 0 \<or> rowIndex \<ge> int (length (rows ud))
      then Inr (setError state (InvalidRowIndex rowIndex))
      else if asg \<noteq> None \<and> (the asg < 0 \<or> the asg \<ge> int (length (columns ud)))
      then Inr (setError state (InvalidAssignment (the asg)))
      else
        let isLastRow = (rowIndex = int (length (rows ud)) - 1);
            row = heap state ! (rows ud ! nat rowIndex);
            (a, h1) = alloc (heap state)
               (row\<lparr>assignment := (case asg of None \<Rightarrow> None
                                    | Some k \<Rightarrow> Some (k mod int (length (columns ud))))\<rparr>);
            updatedRows = (rows ud)[nat rowIndex := a];
            (updatedRows, h2) =
               (if isLastRow
                then (let (b, h) = alloc h1 (emptyRow (length (columns ud)))
                      in (updatedRows @ [b], h))
                else (updatedRows, h1))
        in Inr ((updateHistory (state\<lparr>heap := h2\<rparr>) (ud\<lparr>rows := updatedRows\<rparr>))
                  \<lparr>error := None\<rparr>))"
| "simulationReducer INITIAL state (RENAME_COLUMN index newName) =
     (let ud = userData state in
      if index < 0 \<or> index \<ge> int (length (columns ud))
      then Inr (setError state (InvalidColumnIndex index))
      else if blank_name newName
      then Inr (setError state EmptyColumnName)
      else
        let newColumns = (columns ud)[nat index := (columns ud ! nat index)\<lparr>name := newName\<rparr>]
        in Inr ((updateHistory state (ud\<lparr>columns := newColumns\<rparr>))\<lparr>error := None\<rparr>))"
| "simulationReducer INITIAL state (ADD_COLUMN newColumnName) =
     (let ud = userData state in
      if blank_name newColumnName
      then Inr (setError state EmptyColumnName)
      else
        let newColor = (case colorStack ud of [] \<Rightarrow> ''text-gray-500''
                        | c # _ \<Rightarrow> if c = [] then ''text-gray-500'' else c);
            newColorStack = drop 1 (colorStack ud);
            (rowsWithNewColumn, h) = alloc_map (heap state)
               (\<lambda>row. row\<lparr>data := data row @ [None]\<rparr>) (rows ud);
            newColumns = columns ud @ [\<lparr>name = newColumnName, color = newColor\<rparr>];
            newState = (updateHistory (state\<lparr>heap := h\<rparr>)
                          (ud\<lparr>rows := rowsWithNewColumn, columns := newColumns,
                              colorStack := newColorStack\<rparr>))\<lparr>error := None\<rparr>
        in if length (columns ud) = 2 \<and> length newColumns = 3
              \<and> \<not> supportsMultipleTreatments (selectedTestStatistic (settings state))
           then (case find supportsMultipleTreatments testStatistics_keys of
                   Some newTestStatistic \<Rightarrow>
                     Inr (newState\<lparr>settings := (settings newState)
                                     \<lparr>selectedTestStatistic := newTestStatistic\<rparr>\<rparr>)
                 | None \<Rightarrow> Inr newState)
           else Inr newState)"
| "simulationReducer INITIAL state (REMOVE_COLUMN columnIndexToRemove) =
     (let ud = userData state in
      if columnIndexToRemove < 0 \<or> columnIndexToRemove \<ge> int (length (columns ud))
      then Inr (setError state (InvalidColumnIndex columnIndexToRemove))
      else if length (columns ud) \<le> 2
      then Inr (setError state OnlyTwoColumns)
      else
        let removedColumn = columns ud ! nat columnIndexToRemove;
            (rowsWithColumnRemoved, h) = alloc_map (heap state)
               (\<lambda>row. row\<lparr>data := remove_index columnIndexToRemove (data row),
                           assignment := (case assignment row of None \<Rightarrow> None
                              | Some k \<Rightarrow> if k \<ge> columnIndexToRemove then Some (k - 1)
                                          else Some k)\<rparr>)
               (rows ud);
            updatedColumns = remove_index columnIndexToRemove (columns ud);
            updatedColorStack = colorStack ud @ [color removedColumn]
        in Inr ((updateHistory (state\<lparr>heap := h\<rparr>)
                   (ud\<lparr>rows := rowsWithColumnRemoved, columns := updatedColumns,
                       colorStack := updatedColorStack\<rparr>))\<lparr>error := None\<rparr>))"
| "simulationReducer INITIAL state (SET_SIMULATION_SPEED payload) =
     (if \<not> validateSimulationSpeed payload
      then Inr (setError state (InvalidSimulationSpeed payload))
      else Inr (state\<lparr>settings := (settings state)\<lparr>simulationSpeed := payload\<rparr>,
                      error := None\<rparr>))"
| "simulationReducer INITIAL state (SET_SELECTED_TEST_STATISTIC payload) =
     (if \<not> validateSelectedTestStatistic payload
      then Inr (setError state (InvalidTestStatistic payload))
      else Inr (state\<lparr>settings := (settings state)\<lparr>selectedTestStatistic := payload\<rparr>,
                      error := None\<rparr>))"
| "simulationReducer INITIAL state (SET_TOTAL_SIMULATIONS payload) =
     (if \<not> validateTotalSimulations payload
      then Inr (setError state (InvalidTotalSimulations payload))
      else Inr (state\<lparr>settings := (settings state)\<lparr>totalSimulations := payload\<rparr>,
                      error := None\<rparr>))"
| "simulationReducer INITIAL state (SET_P_VALUE_TYPE payload) =
     (if \<not> validatePValueType payload
      then Inr (setError state (InvalidPValueType payload))
      else Inr (state\<lparr>settings := (settings state)\<lparr>pValueType := payload\<rparr>,
                      error := None\<rparr>))"
| "simulationReducer INITIAL state START_SIMULATION =
     (if isSimulating state
      then Inr (setError state AlreadyRunning)
      else
        let completeRows = filter completeRow (map (\<lambda>a. heap state ! a) (rows (userData state)))
        in if length completeRows < 2
           then Inr (setError state InsufficientData)
           else Inr (state\<lparr>isSimulating := True, error := None\<rparr>))"
| "simulationReducer INITIAL state PAUSE_SIMULATION =
     (if \<not> isSimulating state
      then Inr (setError state NotRunning)
      else Inr (state\<lparr>isSimulating := False, error := None\<rparr>))"
| "simulationReducer INITIAL state CLEAR_SIMULATION_DATA =
     Inr (state\<lparr>results := \<lparr>simulationResults = [], pValue = None, observedStatistic = None\<rparr>,
                error := None\<rparr>)"
| "simulationReducer INITIAL state (SET_SIMULATION_RESULTS payload) =
     Inr (state\<lparr>results := (results state)\<lparr>simulationResults := payload\<rparr>, error := None\<rparr>)"
| "simulationReducer INITIAL state (SET_P_VALUE payload) =
     (if js_less payload (Num 0) \<or> js_less (Num 1) payload
      then Inr (setError state (InvalidPValue payload))
      else Inr (state\<lparr>results := (results state)\<lparr>pValue := Some payload\<rparr>, error := None\<rparr>))"
| "simulationReducer INITIAL state (SET_OBSERVED_STATISTIC payload) =
     Inr (state\<lparr>results := (results state)\<lparr>observedStatistic := payload\<rparr>, error := None\<rparr>)"
| "simulationReducer INITIAL state (SET_BLOCKING_ENABLED payload) =
     Inr (state\<lparr>settings := (settings state)\<lparr>blockingEnabled := payload\<rparr>, error := None\<rparr>)"
| "simulationReducer INITIAL state UNDO =
     (if length (past state) = 0
      then Inr (setError state NothingToUndo)
      else
        let previous = past state ! (length (past state) - 1);
            newPast = take (length (past state) - 1) (past state)
        in Inr (state\<lparr>past := newPast, userData := previous,
                      future := userData state # future state, error := None\<rparr>))"
| "simulationReducer INITIAL state REDO =
     (if length (future state) = 0
      then Inr (setError state NothingToRedo)
      else
        let next = future state ! 0;
            newFuture = drop 1 (future state)
        in Inr (state\<lparr>past := past state @ [userData state], userData := next,
                      future := newFuture, error := None\<rparr>))"
| "simulationReducer INITIAL state (OTHER_ACTION t) =
     Inr (setError state (UnhandledAction t))"

text \<open>Dispatching a sequence of actions, one after the other, to the reducer.\<close>

fun dispatchAll ::
  "UserDataState \<Rightarrow> SimulationState \<Rightarrow> SimulationAction list \<Rightarrow> exn + SimulationState" where
  "dispatchAll INITIAL state [] = Inr state"
| "dispatchAll INITIAL state (a # as) =
     (case simulationReducer INITIAL state a of
        Inl e \<Rightarrow> Inl e
      | Inr state' \<Rightarrow> dispatchAll INITIAL state' as)"

text \<open>
  \<open>dispatchWithResult\<close> of the provider: the action is dispatched, the reducer's result is
  inspected for its \<open>error\<close>, and the caller gets \<open>{success: false, error}\<close> or
  \<open>{success: true, warning}\<close> (the messages of the active warning conditions joined by
  \<open>'; '\<close>, \<open>undefined\<close> when there is none).
\<close>

datatype ActionResult = Failure ErrorState | Success "string option"

fun join_messages :: "string list \<Rightarrow> string" where
  "join_messages [] = []"
| "join_messages [m] = m"
| "join_messages (m # ms) = m @ ''; '' @ join_messages ms"

definition dispatchWithResult ::
  "UserDataState \<Rightarrow> ((SimulationState \<Rightarrow> bool) \<times> string) list \<Rightarrow> SimulationState
     \<Rightarrow> SimulationAction \<Rightarrow> exn + (ActionResult \<times> SimulationState)" where
  "dispatchWithResult INITIAL warningConditions state action =
     (case simulationReducer INITIAL state action of
        Inl e \<Rightarrow> Inl e
      | Inr updatedState \<Rightarrow>
          (case error updatedState of
             Some m \<Rightarrow> Inr (Failure m, updatedState)
           | None \<Rightarrow>
               let activeWarnings = filter (\<lambda>condition. fst condition updatedState) warningConditions
               in Inr (Success (if length activeWarnings > 0
                                then Some (join_messages (map snd activeWarnings))
                                else None),
                       updatedState)))"

section \<open>Reading a table out of the store\<close>

definition table_rows :: "DataRow list \<Rightarrow> UserDataState \<Rightarrow> DataRow list" where
  "table_rows h t = map (\<lambda>a. h ! a) (rows t)"

text \<open>The table as an observer sees it: columns, row contents, colour pool.\<close>

definition tableView :: "DataRow list \<Rightarrow> UserDataState \<Rightarrow> Column list \<times> DataRow list \<times> string list" where
  "tableView h t = (columns t, table_rows h t, colorStack t)"

definition tableAfter :: "exn + SimulationState \<Rightarrow> (Column list \<times> DataRow list \<times> string list) option" where
  "tableAfter r = (case r of Inl e \<Rightarrow> None | Inr s \<Rightarrow> Some (tableView (heap s) (userData s)))"

text \<open>Every row reference of a table points into the store (no dangling reference).\<close>

definition refs_ok :: "DataRow list \<Rightarrow> UserDataState \<Rightarrow> bool" where
  "refs_ok h t = list_all (\<lambda>a. a < length h) (rows t)"

definition assignment_in_range :: "nat \<Rightarrow> DataRow \<Rightarrow> bool" where
  "assignment_in_range n row =
     (case assignment row of None \<Rightarrow> True | Some k \<Rightarrow> 0 \<le> k \<and> k < int n)"

text \<open>
  The invariants of the table: at least two columns, at least one row (the last one is the
  staging row), every present assignment is a column index.
\<close>

definition table_invariant :: "DataRow list \<Rightarrow> UserDataState \<Rightarrow> bool" where
  "table_invariant h t =
     (length (columns t) \<ge> 2 \<and> length (rows t) \<ge> 1
      \<and> list_all (assignment_in_range (length (columns t))) (table_rows h t))"

definition invariantAfter :: "exn + SimulationState \<Rightarrow> bool" where
  "invariantAfter r = (case r of Inl e \<Rightarrow> False | Inr s \<Rightarrow> table_invariant (heap s) (userData s))"

section \<open>Test statistics and the p-value\<close>

text \<open>
  \<open>rank\<close>: pair every value with its index, sort by value (the sort is stable), walk the
  sorted array and give every element the 1-based position of the first element of its run
  of equal values.
\<close>

definition rank :: "real list \<Rightarrow> nat list" where
  "rank values =
     (let sorted = sort_key fst (zip values [0 ..< length values]);
          ranks = replicate (length values) 0;
          currentRank = 1
      in fst (fold (\<lambda>i (ranks, currentRank).
                 let currentRank = (if i > 0 \<and> fst (sorted ! i) \<noteq> fst (sorted ! (i - 1))
                                    then i + 1 else currentRank)
                 in (ranks[snd (sorted ! i) := currentRank], currentRank))
               [0 ..< length sorted] (ranks, currentRank)))"

definition filterValidRows :: "DataRow list \<Rightarrow> DataRow list" where
  "filterValidRows rs = filter (\<lambda>row. list_all (\<lambda>v. v \<noteq> None) (data row)) (butlast rs)"

text \<open>
  \<open>d[k]\<close> for a cell array \<open>d\<close> and a key \<open>k\<close> that is a number or \<open>null\<close>: \<open>undefined\<close>
  (here \<open>None\<close>, which like \<open>null\<close> is not of type \<open>'number'\<close>) outside the array.
\<close>

definition index_cell :: "real option list \<Rightarrow> int option \<Rightarrow> real option" where
  "index_cell d k =
     (case k of None \<Rightarrow> None
      | Some i \<Rightarrow> if 0 \<le> i \<and> i < int (length d) then d ! nat i else None)"

text \<open>
  The accumulator \<open>acc\<close> of the two \<open>reduce\<close> calls is an object whose property keys are
  assignments. It is kept as an association list in insertion order.
  \<open>if (!acc[k]) acc[k] = []; acc[k].push(v)\<close>:
\<close>

definition push_group :: "int option \<Rightarrow> real \<Rightarrow> (int option \<times> real list) list \<Rightarrow> (int option \<times> real list) list" where
  "push_group k v acc =
     (if k \<in> set (map fst acc)
      then map (\<lambda>(k', g). if k' = k then (k', g @ [v]) else (k', g)) acc
      else acc @ [(k, [v])])"

definition groupRows :: "(DataRow \<Rightarrow> real option) \<Rightarrow> DataRow list \<Rightarrow> (int option \<times> real list) list" where
  "groupRows cell rs =
     fold (\<lambda>row acc. case cell row of Some v \<Rightarrow> push_group (assignment row) v acc | None \<Rightarrow> acc)
          rs []"

text \<open>
  \<open>Object.values\<close> lists the integer-index keys in ascending order first, then the other
  keys (\<open>"null"\<close>, negative numbers) in insertion order.
\<close>

definition index_key :: "int option \<Rightarrow> bool" where
  "index_key k = (case k of None \<Rightarrow> False | Some i \<Rightarrow> 0 \<le> i \<and> i < 4294967295)"

definition object_values :: "(int option \<times> 'v) list \<Rightarrow> 'v list" where
  "object_values acc =
     map snd (sort_key (\<lambda>p. the (fst p)) (filter (\<lambda>p. index_key (fst p)) acc))
     @ map snd (filter (\<lambda>p. \<not> index_key (fst p)) acc)"

text \<open>The cell a statistic reads from a row: \<open>row.data[row.assignment]\<close> and \<open>row.data[0]\<close>.\<close>

definition ownCell :: "DataRow \<Rightarrow> real option" where
  "ownCell row = index_cell (data row) (assignment row)"

definition firstCell :: "DataRow \<Rightarrow> real option" where
  "firstCell row = index_cell (data row) (Some 0)"

definition groupMean :: "real list \<Rightarrow> real" where
  "groupMean g = (if length g > 0 then sum_list g / real (length g) else 0)"

definition differenceInMeans :: "DataRow list \<Rightarrow> real" where
  "differenceInMeans rs =
     (if rs = [] then 0
      else
        let groups = groupRows ownCell rs;
            groupMeans = map groupMean (object_values groups)
        in if length groupMeans \<ge> 2 then groupMeans ! 1 - groupMeans ! 0 else 0)"

definition wilcoxonRankSum :: "DataRow list \<Rightarrow> exn + real" where
  "wilcoxonRankSum rs =
     (if rs = [] then Inr 0
      else
        let groups = groupRows firstCell rs;
            groupValues = object_values groups
        in if length groupValues \<noteq> 2
           then Inl (Error ''Wilcoxon rank-sum test requires exactly two groups.'')
           else
             let group1 = groupValues ! 0;
                 group2 = groupValues ! 1;
                 combined = group1 @ group2;
                 ranks = rank combined;
                 rankSumGroup1 = sum_list (take (length group1) ranks);
                 n1 = length group1;
                 n2 = length group2;
                 U1 = real rankSumGroup1 - real (n1 * (n1 + 1)) / 2;
                 U2 = real (n1 * n2) - U1
             in Inr (min U1 U2))"

text \<open>\<open>testStatistics[stat].function\<close>\<close>

fun statisticFunction :: "ExperimentalTestStatistic \<Rightarrow> DataRow list \<Rightarrow> exn + real" where
  "statisticFunction DifferenceInMeans rs = Inr (differenceInMeans rs)"
| "statisticFunction WilcoxonRankSum rs = wilcoxonRankSum rs"

text \<open>\<open>xs.filter(p)\<close> for a predicate that may throw: the first exception ends the call.\<close>

fun filter_throwing :: "('a \<Rightarrow> exn + bool) \<Rightarrow> 'a list \<Rightarrow> exn + 'a list" where
  "filter_throwing p [] = Inr []"
| "filter_throwing p (x # xs) =
     (case p x of
        Inl e \<Rightarrow> Inl e
      | Inr b \<Rightarrow> (case filter_throwing p xs of
                    Inl e \<Rightarrow> Inl e
                  | Inr ys \<Rightarrow> Inr (if b then x # ys else ys)))"

definition calculatePValue ::
  "real \<Rightarrow> DataRow list list \<Rightarrow> ExperimentalTestStatistic \<Rightarrow> PValueType \<Rightarrow> exn + jsnum" where
  "calculatePValue originalTestStatistic simResults testStatistic pvType =
     (let totalSims = length simResults;
          extreme =
            (case pvType of
               TwoTailed \<Rightarrow>
                 filter_throwing (\<lambda>result. map_sum id (\<lambda>s. \<bar>s\<bar> \<ge> \<bar>originalTestStatistic\<bar>)
                                    (statisticFunction testStatistic result)) simResults
             | LeftTailed \<Rightarrow>
                 filter_throwing (\<lambda>result. map_sum id (\<lambda>s. s \<le> originalTestStatistic)
                                    (statisticFunction testStatistic result)) simResults
             | RightTailed \<Rightarrow>
                 filter_throwing (\<lambda>result. map_sum id (\<lambda>s. s \<ge> originalTestStatistic)
                                    (statisticFunction testStatistic result)) simResults)
      in case extreme of
           Inl e \<Rightarrow> Inl e
         | Inr ex \<Rightarrow> Inr (js_div_count (length ex) totalSims))"

text \<open>
  The groups as the specification words them: the group of an assignment \<open>k\<close> is the list
  of the numeric cells read from the rows whose assignment is \<open>k\<close>, in row order, and the
  difference in means is the mean of group 1 minus the mean of group 0 (0 on empty input).
\<close>

definition group_of :: "(DataRow \<Rightarrow> real option) \<Rightarrow> int option \<Rightarrow> DataRow list \<Rightarrow> real list" where
  "group_of cell k rs = List.map_filter cell (filter (\<lambda>row. assignment row = k) rs)"

definition differenceInMeans_spec :: "DataRow list \<Rightarrow> real" where
  "differenceInMeans_spec rs =
     (if rs = [] then 0
      else groupMean (group_of ownCell (Some 1) rs) - groupMean (group_of ownCell (Some 0) rs))"

text \<open>Reading a group out of the accumulator.\<close>

definition group_lookup :: "(int option \<times> real list) list \<Rightarrow> int option \<Rightarrow> real list" where
  "group_lookup acc k = (case map_of acc k of None \<Rightarrow> [] | Some g \<Rightarrow> g)"

section \<open>The simulation loop\<close>

text \<open>
  \<open>runSimulation\<close> of the provider. The environment of the loop is explicit:
  \<open>aborted i\<close> is the value of \<open>abortSignal.aborted\<close> when iteration \<open>i\<close> tests it, and
  \<open>draw i\<close> is the random relabelling that \<open>shuffleRowAssignments\<close> (not among the sources)
  performs in iteration \<open>i\<close>. \<open>onProgress\<close> acts on an observer state that is passed along.
  The promise of \<open>dynamicDelay\<close> is only ever resolved, so the \<open>catch\<close> around the
  \<open>await\<close> is never entered. The result is \<open>Inl\<close> when the returned promise rejects,
  otherwise \<open>{results, aborted}\<close> and the observer state.
\<close>

definition simulate :: "(nat \<Rightarrow> DataRow list \<Rightarrow> DataRow list) \<Rightarrow> nat \<Rightarrow> DataRow list \<Rightarrow> DataRow list" where
  "simulate draw i rowsCopy = draw i (filterValidRows rowsCopy)"

text \<open>\<open>state.results.observedStatistic!\<close> in a numeric comparison: \<open>null\<close> counts as 0.\<close>

definition observed_number :: "real option \<Rightarrow> real" where
  "observed_number obs = (case obs of None \<Rightarrow> 0 | Some x \<Rightarrow> x)"

function runSimulation_from ::
  "(nat \<Rightarrow> DataRow list \<Rightarrow> DataRow list) \<Rightarrow> (nat \<Rightarrow> bool)
     \<Rightarrow> (DataRow list list \<Rightarrow> jsnum \<Rightarrow> 'o \<Rightarrow> 'o)
     \<Rightarrow> real option \<Rightarrow> ExperimentalTestStatistic \<Rightarrow> PValueType
     \<Rightarrow> DataRow list \<Rightarrow> real \<Rightarrow> nat \<Rightarrow> DataRow list list \<Rightarrow> 'o
     \<Rightarrow> exn + (DataRow list list \<times> bool \<times> 'o)" where
  "runSimulation_from draw aborted onProgress obs stat pvType rowsCopy iterations i simResults ob =
     (if real i < iterations
      then
        if aborted i then Inr (simResults, True, ob)
        else
          let result = simulate draw i rowsCopy;
              simResults = simResults @ [result]
          in case calculatePValue (observed_number obs) simResults stat pvType of
               Inl e \<Rightarrow> Inl e
             | Inr currentPValue \<Rightarrow>
                 runSimulation_from draw aborted onProgress obs stat pvType rowsCopy iterations
                   (i + 1) simResults (onProgress simResults currentPValue ob)
      else Inr (simResults, False, ob))"
  by pat_completeness auto
termination
  by (relation "measure (\<lambda>(draw, aborted, onProgress, obs, stat, pvType, rowsCopy, iterations,
                             i, simResults, ob). nat \<lceil>iterations\<rceil> - i)")
     (auto simp: less_ceiling_iff zless_nat_eq_int_zless intro!: diff_less_mono2)

declare runSimulation_from.simps [simp del]

definition runSimulation ::
  "(nat \<Rightarrow> DataRow list \<Rightarrow> DataRow list) \<Rightarrow> (nat \<Rightarrow> bool)
     \<Rightarrow> (DataRow list list \<Rightarrow> jsnum \<Rightarrow> 'o \<Rightarrow> 'o)
     \<Rightarrow> real option \<Rightarrow> ExperimentalTestStatistic \<Rightarrow> PValueType
     \<Rightarrow> DataRow list \<Rightarrow> real \<Rightarrow> DataRow list list \<Rightarrow> 'o
     \<Rightarrow> exn + (DataRow list list \<times> bool \<times> 'o)" where
  "runSimulation draw aborted onProgress obs stat pvType rowsCopy iterations existingResults ob =
     runSimulation_from draw aborted onProgress obs stat pvType rowsCopy iterations
       (length existingResults) existingResults ob"

text \<open>The actions of the data store that change the table and record history.\<close>

fun table_mutation :: "SimulationAction \<Rightarrow> bool" where
  "table_mutation (SET_USER_DATA p) = True"
| "table_mutation RESET_USER_DATA = True"
| "table_mutation EMPTY_USER_DATA = True"
| "table_mutation ADD_ROW = True"
| "table_mutation (DELETE_ROW i) = True"
| "table_mutation (UPDATE_CELL r c v) = True"
| "table_mutation (SET_BLOCK r b) = True"
| "table_mutation (SET_ASSIGNMENT r a) = True"
| "table_mutation (RENAME_COLUMN i n) = True"
| "table_mutation (ADD_COLUMN n) = True"
| "table_mutation (REMOVE_COLUMN i) = True"
| "table_mutation _ = False"

section \<open>Example inputs\<close>

text \<open>
  Modelled from the spec: the default table of \<open>INITIAL_STATE\<close> (defined in \<open>./constants\<close>,
  not among the sources) is "a default 2-column, 1-staging-row template"; the column names
  and the palette are placeholders. The theorems below hold for every \<open>INITIAL\<close>; the
  template is only used to run the reducer on concrete inputs.
\<close>

definition template :: UserDataState where
  "template = \<lparr>columns = [\<lparr>name = ''Control'', color = ''text-blue-500''\<rparr>,
                           \<lparr>name = ''Treatment'', color = ''text-red-500''\<rparr>],
               rows = [0], colorStack = [''text-green-500'', ''text-yellow-500'']\<rparr>"

definition state0 :: SimulationState where
  "state0 = \<lparr>heap = [emptyRow 2], past = [], future = [], userData = template,
     settings = \<lparr>simulationSpeed = 50, selectedTestStatistic = DifferenceInMeans,
                 totalSimulations = 1000, pValueType = TwoTailed, blockingEnabled = False\<rparr>,
     isSimulating = False,
     results = \<lparr>simulationResults = [], pValue = None, observedStatistic = None\<rparr>,
     error = None\<rparr>"

text \<open>A table with three columns, one entered row assigned to column 0, and the staging row.\<close>

definition threeColumns :: SimulationState where
  "threeColumns = state0
     \<lparr>heap := [\<lparr>data = [Some 1, Some 2, Some 3], assignment = Some 0, block = None\<rparr>, emptyRow 3],
      userData := \<lparr>columns = [\<lparr>name = ''A'', color = ''text-blue-500''\<rparr>,
                               \<lparr>name = ''B'', color = ''text-red-500''\<rparr>,
                               \<lparr>name = ''C'', color = ''text-green-500''\<rparr>],
                    rows = [0, 1], colorStack = [''text-yellow-500'']\<rparr>\<rparr>"

definition lastColumnColor :: "exn + SimulationState \<Rightarrow> string option" where
  "lastColumnColor r =
     (case r of Inl e \<Rightarrow> None | Inr s \<Rightarrow> Some (color (last (columns (userData s)))))"

definition mkRow :: "real option list \<Rightarrow> int option \<Rightarrow> DataRow" where
  "mkRow d a = \<lparr>data = d, assignment = a, block = None\<rparr>"

text \<open>Four trials whose differences in means are 1, 5, 6 and 10.\<close>

definition pValueExample :: "DataRow list list" where
  "pValueExample = map (\<lambda>v. [mkRow [Some 0, Some v] (Some 0), mkRow [Some 0, Some v] (Some 1)])
                       [1, 5, 6, 10]"

text \<open>An environment for the loop: no abort, a draw that keeps the labels, an observer
  that records the reported p-values.\<close>

definition neverAborted :: "nat \<Rightarrow> bool" where
  "neverAborted i = False"

definition keepLabels :: "nat \<Rightarrow> DataRow list \<Rightarrow> DataRow list" where
  "keepLabels i rs = rs"

definition recordProgress :: "DataRow list list \<Rightarrow> jsnum \<Rightarrow> jsnum list \<Rightarrow> jsnum list" where
  "recordProgress rs p ob = ob @ [p]"

text \<open>Rows for the statistics: two groups, one group only, and the Wilcoxon example.\<close>

definition oneGroupRows :: "DataRow list" where
  "oneGroupRows = [mkRow [Some 3, Some 5] (Some 1), mkRow [Some 4, Some 6] (Some 1)]"

definition twoGroupRows :: "DataRow list" where
  "twoGroupRows = [mkRow [Some 3, Some 5] (Some 0), mkRow [Some 4, Some 6] (Some 1)]"

definition wilcoxonExample :: "DataRow list" where
  "wilcoxonExample = map (\<lambda>v. mkRow [Some v, None] (Some 0)) [1, 2, 3]
                     @ map (\<lambda>v. mkRow [Some v, None] (Some 1)) [4, 5, 6]"

text \<open>
  A table with two complete rows, both assigned to column 0, a third row with an empty
  cell, and the staging row; the Wilcoxon statistic is selected.
\<close>

definition oneArmTable :: SimulationState where
  "oneArmTable = state0
     \<lparr>heap := [mkRow [Some 1, Some 2] (Some 0), mkRow [Some 3, Some 4] (Some 0),
               mkRow [Some 5, None] (Some 1), emptyRow 2],
      userData := template\<lparr>rows := [0, 1, 2, 3]\<rparr>,
      settings := (settings state0)\<lparr>selectedTestStatistic := WilcoxonRankSum\<rparr>\<rparr>"

section \<open>Basic facts\<close>

lemmas reducer_defs = alloc_def alloc_map_def updateHistory_def setError_def Let_def
  table_rows_def tableView_def tableAfter_def refs_ok_def emptyRow_def remove_index_def
  blank_name_def js_whitespace_def

lemmas statistic_defs = differenceInMeans_def wilcoxonRankSum_def groupRows_def push_group_def
  index_cell_def object_values_def index_key_def groupMean_def mkRow_def rank_def Let_def
  ownCell_def firstCell_def

lemma enumerate_keep_all:
  "k < n \<Longrightarrow> map snd (filter (\<lambda>(j, x). int j \<noteq> int k) (enumerate n xs)) = xs"
  by (induction xs arbitrary: n) auto

lemma enumerate_remove:
  "n \<le> k \<Longrightarrow> map snd (filter (\<lambda>(j, x). int j \<noteq> int k) (enumerate n xs))
     = take (k - n) xs @ drop (Suc (k - n)) xs"
proof (induction xs arbitrary: n)
  case Nil
  then show ?case by simp
next
  case (Cons x xs)
  show ?case
  proof (cases "n = k")
    case True
    then show ?thesis using enumerate_keep_all [of k "Suc k" xs] by simp
  next
    case False
    with Cons.prems have le: "Suc n \<le> k" by simp
    then have eq: "Suc (k - Suc n) = k - n" by arith
    from Cons.IH [OF le] False Cons.prems show ?thesis
      by (simp add: take_Cons' drop_Cons' eq)
  qed
qed

text \<open>Filtering out one index is cutting the element out of the array.\<close>

lemma remove_index_conv:
  "0 \<le> i \<Longrightarrow> remove_index i xs = take (nat i) xs @ drop (Suc (nat i)) xs"
  using enumerate_remove [of 0 "nat i" xs] by (simp add: remove_index_def)

lemma length_remove_index:
  "0 \<le> i \<Longrightarrow> i < int (length xs) \<Longrightarrow> length (remove_index i xs) = length xs - 1"
  by (simp add: remove_index_conv)

section \<open>Clearing the cell values\<close>

text \<open>
  C10. \<open>EMPTY_USER_DATA\<close> (clearCellValues) always succeeds; afterwards every row has all of
  its cells absent (one per column), its original assignment and an absent block, while the
  columns, the colour pool and the number of rows are unchanged.
\<close>

theorem empty_user_data_resets_block:
  "\<exists>s'. simulationReducer INITIAL s EMPTY_USER_DATA = Inr s' \<and> error s' = None
      \<and> table_rows (heap s') (userData s') =
          map (\<lambda>row. \<lparr>data = replicate (length (columns (userData s))) None,
                       assignment = assignment row, block = None\<rparr>)
              (table_rows (heap s) (userData s))
      \<and> columns (userData s') = columns (userData s)
      \<and> colorStack (userData s') = colorStack (userData s)
      \<and> length (rows (userData s')) = length (rows (userData s))"
  by (auto simp: Let_def table_rows_def updateHistory_def alloc_map_def map_replicate_const
       intro!: nth_equalityI simp: nth_append)

section \<open>Starting and pausing\<close>

text \<open>
  C9. Starting while a simulation is running, or with fewer than two complete and assigned
  rows, and pausing while none is running, are rejected: the caller gets a failure with
  the corresponding message, and the new state is the old one with only the last-error
  field set (so the simulation results are untouched).
\<close>

theorem start_pause_rejected:
  "(isSimulating s \<longrightarrow>
      simulationReducer INITIAL s START_SIMULATION = Inr (s\<lparr>error := Some AlreadyRunning\<rparr>)
      \<and> dispatchWithResult INITIAL ws s START_SIMULATION
          = Inr (Failure AlreadyRunning, s\<lparr>error := Some AlreadyRunning\<rparr>))
   \<and> (\<not> isSimulating s \<and> length (filter completeRow (table_rows (heap s) (userData s))) < 2 \<longrightarrow>
      simulationReducer INITIAL s START_SIMULATION = Inr (s\<lparr>error := Some InsufficientData\<rparr>)
      \<and> dispatchWithResult INITIAL ws s START_SIMULATION
          = Inr (Failure InsufficientData, s\<lparr>error := Some InsufficientData\<rparr>))
   \<and> (\<not> isSimulating s \<longrightarrow>
      simulationReducer INITIAL s PAUSE_SIMULATION = Inr (s\<lparr>error := Some NotRunning\<rparr>)
      \<and> dispatchWithResult INITIAL ws s PAUSE_SIMULATION
          = Inr (Failure NotRunning, s\<lparr>error := Some NotRunning\<rparr>))"
  by (simp add: dispatchWithResult_def setError_def table_rows_def Let_def)

theorem start_pause_rejected_witness:
  "\<not> isSimulating state0
   \<and> length (filter completeRow (table_rows (heap state0) (userData state0))) < 2
   \<and> simulationReducer template state0 START_SIMULATION = Inr (state0\<lparr>error := Some InsufficientData\<rparr>)
   \<and> simulationReducer template state0 PAUSE_SIMULATION = Inr (state0\<lparr>error := Some NotRunning\<rparr>)
   \<and> isSimulating (state0\<lparr>isSimulating := True\<rparr>)
   \<and> dispatchWithResult template [] (state0\<lparr>isSimulating := True\<rparr>) START_SIMULATION
       = Inr (Failure AlreadyRunning, state0\<lparr>isSimulating := True, error := Some AlreadyRunning\<rparr>)"
  using start_pause_rejected [of state0 template "[]"]
        start_pause_rejected [of "state0\<lparr>isSimulating := True\<rparr>" template "[]"]
  by (simp add: state0_def template_def table_rows_def completeRow_def emptyRow_def)

section \<open>Editing the staging row\<close>

text \<open>
  C7. For a table whose staging row has one cell per column, \<open>updateCell\<close> on the staging
  row (the last row) at an in-range column succeeds; the rows before it are unchanged, the
  edited row has the cell set to the value and its assignment set to the column index, and
  a fresh empty row is appended exactly when the value is present: the number of rows
  grows by one for a present value and is unchanged for an absent one.
\<close>

theorem updateCell_staging_row:
  assumes r: "rowIndex = int (length (rows (userData s))) - 1" "0 \<le> rowIndex"
      and c: "0 \<le> columnIndex" "columnIndex < int (length (columns (userData s)))"
      and ok: "refs_ok (heap s) (userData s)"
      and len: "length (data (last (table_rows (heap s) (userData s)))) = length (columns (userData s))"
  shows "\<exists>s'. simulationReducer INITIAL s (UPDATE_CELL rowIndex columnIndex v) = Inr s'
     \<and> error s' = None
     \<and> table_rows (heap s') (userData s') =
         butlast (table_rows (heap s) (userData s))
         @ [(last (table_rows (heap s) (userData s)))
              \<lparr>data := (data (last (table_rows (heap s) (userData s))))[nat columnIndex := v],
               assignment := Some columnIndex\<rparr>]
         @ (if v \<noteq> None then [emptyRow (length (columns (userData s)))] else [])
     \<and> length (rows (userData s')) = length (rows (userData s)) + (if v \<noteq> None then 1 else 0)"
proof -
  let ?rs = "rows (userData s)"
  let ?h = "heap s"
  from r have ne: "?rs \<noteq> []" by auto
  then obtain bs a where rs: "?rs = bs @ [a]" by (metis rev_exhaust)
  from r rs have ri: "nat rowIndex = length bs" by simp
  from ok rs have a: "a < length ?h" and bs: "\<forall>b\<in>set bs. b < length ?h"
    by (auto simp: refs_ok_def list_all_iff)
  have old: "table_rows ?h (userData s) = map (\<lambda>b. ?h ! b) bs @ [?h ! a]"
    by (simp add: table_rows_def rs)
  from len old c have clen: "nat columnIndex < length (data (?h ! a))" by simp
  have upd: "take (nat columnIndex) (data (?h ! a)) @ w # drop (Suc (nat columnIndex)) (data (?h ! a))
             = (data (?h ! a))[nat columnIndex := w]" for w
    using clen by (simp add: upd_conv_take_nth_drop)
  have keep: "map (\<lambda>b. (?h @ xs) ! b) bs = map (\<lambda>b. ?h ! b) bs" for xs
    using bs by (simp add: nth_append)
  show ?thesis
    using r c rs ri
    by (simp add: Let_def alloc_def updateHistory_def table_rows_def old upd keep
          nth_append split: prod.splits)
qed

theorem updateCell_staging_row_witness:
  "tableAfter (simulationReducer template state0 (UPDATE_CELL 0 1 (Some 7)))
     = Some (columns template,
             [\<lparr>data = [None, Some 7], assignment = Some 1, block = None\<rparr>, emptyRow 2],
             colorStack template)"
  using updateCell_staging_row [of 0 state0 1 template "Some 7"]
  by (simp add: state0_def template_def reducer_defs numeral_2_eq_2)

section \<open>The colour pool\<close>

text \<open>
  C3, as the code has it. The pool is a first-in first-out queue: \<open>removeColumn\<close> appends the
  removed column's token at the back, \<open>addColumn\<close> takes the token at the front (and
  replaces an empty token by \<open>text-gray-500\<close>). So after a successful \<open>removeColumn(i)\<close>, an
  \<open>addColumn\<close> with a non-blank name succeeds and gives the new column the front token of
  the pool with the removed token appended; that is the removed column's own token when
  the pool was empty before the removal and the token is not the empty string.
\<close>

theorem removeColumn_addColumn_color:
  assumes rm: "simulationReducer INITIAL s (REMOVE_COLUMN i) = Inr s1" "error s1 = None"
      and nm: "\<not> blank_name n"
  shows "\<exists>s2. simulationReducer INITIAL s1 (ADD_COLUMN n) = Inr s2 \<and> error s2 = None
     \<and> length (columns (userData s2)) = length (columns (userData s))
     \<and> name (last (columns (userData s2))) = n
     \<and> color (last (columns (userData s2))) =
          (case colorStack (userData s) @ [color (columns (userData s) ! nat i)] of
             c # _ \<Rightarrow> if c = [] then ''text-gray-500'' else c)
     \<and> (colorStack (userData s) = [] \<and> color (columns (userData s) ! nat i) \<noteq> []
          \<longrightarrow> color (last (columns (userData s2))) = color (columns (userData s) ! nat i))"
proof -
  from rm have ok: "0 \<le> i" "i < int (length (columns (userData s)))"
      "2 < length (columns (userData s))"
    by (auto simp: Let_def setError_def split: if_splits)
  from rm ok have cs: "colorStack (userData s1)
       = colorStack (userData s) @ [color (columns (userData s) ! nat i)]"
    and cols: "columns (userData s1) = remove_index i (columns (userData s))"
    by (auto simp: Let_def alloc_map_def updateHistory_def split: if_splits)
  from ok have len: "length (remove_index i (columns (userData s))) = length (columns (userData s)) - 1"
    by (simp add: length_remove_index)
  show ?thesis
    using nm ok
    by (cases "colorStack (userData s)")
       (auto simp: Let_def alloc_map_def updateHistory_def cs cols len testStatistics_keys_def
          split: prod.splits)
qed

theorem removeColumn_addColumn_color_witness:
  "lastColumnColor (dispatchAll template threeColumns [REMOVE_COLUMN 2, ADD_COLUMN ''D''])
     = Some ''text-yellow-500''"
  using removeColumn_addColumn_color [of template threeColumns 2 _ "''D''"]
  by (simp add: threeColumns_def state0_def template_def reducer_defs lastColumnColor_def
        testStatistics_keys_def numeral_2_eq_2 numeral_3_eq_3)

text \<open>
  The round trip fails when the pool is not empty: the column removed had the token
  \<open>text-green-500\<close>, the column created next gets \<open>text-yellow-500\<close>.
\<close>

theorem color_round_trip_counterexample:
  "error (projr (simulationReducer template threeColumns (REMOVE_COLUMN 2))) = None
   \<and> color (columns (userData threeColumns) ! 2) = ''text-green-500''
   \<and> lastColumnColor (dispatchAll template threeColumns [REMOVE_COLUMN 2, ADD_COLUMN ''D''])
       = Some ''text-yellow-500''
   \<and> lastColumnColor (dispatchAll template threeColumns [REMOVE_COLUMN 2, ADD_COLUMN ''D''])
       \<noteq> Some (color (columns (userData threeColumns) ! 2))"
  by (simp add: threeColumns_def state0_def template_def reducer_defs lastColumnColor_def
        testStatistics_keys_def numeral_2_eq_2 numeral_3_eq_3)

section \<open>The p-value estimator\<close>

lemma filter_throwing_total:
  "map f xs = map Inr ss \<Longrightarrow>
     \<exists>ys. filter_throwing (\<lambda>x. map_sum id P (f x)) xs = Inr ys \<and> length ys = length (filter P ss)"
proof (induction xs arbitrary: ss)
  case Nil
  then show ?case by simp
next
  case (Cons x xs)
  then obtain s ss' where ss: "ss = s # ss'" "f x = Inr s" "map f xs = map Inr ss'"
    by (cases ss) auto
  from Cons.IH [OF ss(3)] obtain ys where
    "filter_throwing (\<lambda>x. map_sum id P (f x)) xs = Inr ys" "length ys = length (filter P ss')"
    by blast
  with ss show ?case by (auto simp: id_def)
qed

lemma calculatePValue_counts:
  assumes m: "map (statisticFunction stat) trials = map Inr simulated"
  shows "calculatePValue observed trials stat tail =
       Inr (if simulated = [] then NaN
            else Num (real (length (filter
                   (\<lambda>s. case tail of TwoTailed \<Rightarrow> \<bar>s\<bar> \<ge> \<bar>observed\<bar>
                                    | LeftTailed \<Rightarrow> s \<le> observed
                                    | RightTailed \<Rightarrow> s \<ge> observed) simulated))
                      / real (length simulated)))"
proof -
  from m have len: "length trials = length simulated"
    by (metis length_map)
  show ?thesis
  proof (cases tail)
    case TwoTailed
    from filter_throwing_total [OF m, of "\<lambda>s. \<bar>s\<bar> \<ge> \<bar>observed\<bar>"] len TwoTailed
    show ?thesis by (auto simp: calculatePValue_def js_div_count_def)
  next
    case LeftTailed
    from filter_throwing_total [OF m, of "\<lambda>s. s \<le> observed"] len LeftTailed
    show ?thesis by (auto simp: calculatePValue_def js_div_count_def)
  next
    case RightTailed
    from filter_throwing_total [OF m, of "\<lambda>s. s \<ge> observed"] len RightTailed
    show ?thesis by (auto simp: calculatePValue_def js_div_count_def)
  qed
qed

text \<open>
  C4. When the selected statistic evaluates to the numbers \<open>simulated\<close> on the trials, the
  p-value is the number of extreme values divided by the number of trials, where a value
  \<open>s\<close> is extreme when \<open>|s| \<ge> |observed|\<close> (two-tailed), \<open>s \<le> observed\<close> (left-tailed) or
  \<open>s \<ge> observed\<close> (right-tailed); with no trial the division is 0/0 and the result is NaN.
  For the observed value 5 and trials with the statistics 1, 5, 6, 10 the two-tailed
  p-value is 0.75.
\<close>

theorem calculatePValue_estimator:
  "(map (statisticFunction stat) trials = map Inr simulated \<longrightarrow>
     calculatePValue observed trials stat tail =
       Inr (if simulated = [] then NaN
            else Num (real (length (filter
                   (\<lambda>s. case tail of TwoTailed \<Rightarrow> \<bar>s\<bar> \<ge> \<bar>observed\<bar>
                                    | LeftTailed \<Rightarrow> s \<le> observed
                                    | RightTailed \<Rightarrow> s \<ge> observed) simulated))
                      / real (length simulated))))
   \<and> map (statisticFunction DifferenceInMeans) pValueExample = map Inr [1, 5, 6, 10]
   \<and> calculatePValue 5 pValueExample DifferenceInMeans TwoTailed = Inr (Num 0.75)"
proof (intro conjI impI)
  assume "map (statisticFunction stat) trials = map Inr simulated"
  then show "calculatePValue observed trials stat tail =
       Inr (if simulated = [] then NaN
            else Num (real (length (filter
                   (\<lambda>s. case tail of TwoTailed \<Rightarrow> \<bar>s\<bar> \<ge> \<bar>observed\<bar>
                                    | LeftTailed \<Rightarrow> s \<le> observed
                                    | RightTailed \<Rightarrow> s \<ge> observed) simulated))
                      / real (length simulated)))"
    by (rule calculatePValue_counts)
next
  show "map (statisticFunction DifferenceInMeans) pValueExample = map Inr [1, 5, 6, 10]"
    by (simp add: pValueExample_def statistic_defs)
next
  show "calculatePValue 5 pValueExample DifferenceInMeans TwoTailed = Inr (Num 0.75)"
    by (simp add: pValueExample_def statistic_defs calculatePValue_def js_div_count_def)
qed

theorem calculatePValue_estimator_witness:
  "map (statisticFunction DifferenceInMeans) pValueExample = map Inr [1, 5, 6, 10]
   \<and> calculatePValue 5 pValueExample DifferenceInMeans TwoTailed = Inr (Num (3 / 4))
   \<and> calculatePValue 5 pValueExample DifferenceInMeans LeftTailed = Inr (Num (1 / 2))
   \<and> calculatePValue 5 [] WilcoxonRankSum RightTailed = Inr NaN"
  using calculatePValue_estimator [of DifferenceInMeans pValueExample "[1, 5, 6, 10]" 5 TwoTailed]
        calculatePValue_estimator [of DifferenceInMeans pValueExample "[1, 5, 6, 10]" 5 LeftTailed]
        calculatePValue_estimator [of WilcoxonRankSum "[]" "[]" 5 RightTailed]
  by simp

section \<open>Resuming the simulation loop\<close>

lemma calculatePValue_defined:
  assumes "\<forall>r\<in>set trials. \<exists>v. statisticFunction stat r = Inr v"
  shows "\<exists>p. calculatePValue obs trials stat tail = Inr p"
proof -
  from assms have "map (statisticFunction stat) trials
      = map Inr (map (\<lambda>r. projr (statisticFunction stat r)) trials)"
    by auto
  from calculatePValue_counts [OF this]
  show ?thesis by blast
qed

lemma runSimulation_from_completes:
  assumes "\<forall>j. \<not> aborted j"
  shows "i \<le> n \<Longrightarrow>
     \<forall>r\<in>set (rs @ map (\<lambda>j. simulate draw j rowsCopy) [i ..< n]).
        \<exists>v. statisticFunction stat r = Inr v \<Longrightarrow>
     \<exists>ob'. runSimulation_from draw aborted onProgress obs stat pvType rowsCopy (real n) i rs ob
        = Inr (rs @ map (\<lambda>j. simulate draw j rowsCopy) [i ..< n], False, ob')"
proof (induction "n - i" arbitrary: i rs ob)
  case 0
  then have "i = n" by simp
  then show ?case by (subst runSimulation_from.simps) simp
next
  case (Suc d)
  then have lt: "i < n" and d: "d = n - Suc i" and le: "Suc i \<le> n" by auto
  let ?r = "simulate draw i rowsCopy"
  from lt have upt: "[i ..< n] = i # [Suc i ..< n]" by (simp add: upt_conv_Cons)
  from Suc.prems(2) upt have ev: "\<forall>r\<in>set (rs @ [?r]). \<exists>v. statisticFunction stat r = Inr v"
    by auto
  from calculatePValue_defined [OF ev] obtain p where
    p: "calculatePValue (observed_number obs) (rs @ [?r]) stat pvType = Inr p" by blast
  from Suc.prems(2) upt
  have ev': "\<forall>r\<in>set ((rs @ [?r]) @ map (\<lambda>j. simulate draw j rowsCopy) [Suc i ..< n]).
       \<exists>v. statisticFunction stat r = Inr v" by auto
  from Suc.hyps(1) [OF d le ev', of "onProgress (rs @ [?r]) p ob"] obtain ob' where
    "runSimulation_from draw aborted onProgress obs stat pvType rowsCopy (real n) (Suc i)
       (rs @ [?r]) (onProgress (rs @ [?r]) p ob)
     = Inr ((rs @ [?r]) @ map (\<lambda>j. simulate draw j rowsCopy) [Suc i ..< n], False, ob')"
    by blast
  with lt assms p upt show ?case
    by (subst runSimulation_from.simps) (simp add: Let_def)
qed

lemma runSimulation_from_keeps:
  "runSimulation_from draw aborted onProgress obs stat pvType rowsCopy iterations i rs ob
     = Inr (res, a, ob') \<Longrightarrow> prefix rs res"
proof (induction draw aborted onProgress obs stat pvType rowsCopy iterations i rs ob
       rule: runSimulation_from.induct)
  case (1 draw aborted onProgress obs stat pvType rowsCopy iterations i simResults ob)
  show ?case
  proof (cases "real i < iterations \<and> \<not> aborted i")
    case False
    with "1.prems" show ?thesis
      by (subst (asm) runSimulation_from.simps) (auto split: if_splits)
  next
    case True
    let ?rs = "simResults @ [simulate draw i rowsCopy]"
    from True "1.prems" obtain p where
      p: "calculatePValue (observed_number obs) ?rs stat pvType = Inr p"
      and run: "runSimulation_from draw aborted onProgress obs stat pvType rowsCopy iterations
                  (i + 1) ?rs (onProgress ?rs p ob) = Inr (res, a, ob')"
      by (subst (asm) runSimulation_from.simps) (auto simp: Let_def split: sum.splits)
    from "1.IH" [OF _ _ refl refl p run] True have "prefix ?rs res" by simp
    then show ?thesis by (rule append_prefixD)
  qed
qed

text \<open>
  C8, as the code has it. Started with \<open>k\<close> accumulated results and a budget \<open>n \<ge> k\<close>, a
  loop that is not aborted and whose selected statistic is defined on every trial (the
  accumulated ones and the new ones) returns the \<open>k\<close> results unchanged, followed by exactly
  \<open>n - k\<close> new trials (none when \<open>n = k\<close>), and reports that it was not aborted. Whatever
  the abort signal, the statistic and the budget, the results a loop returns begin with
  the accumulated ones: nothing is discarded or regenerated. (A statistic that throws on a
  trial ends the loop with that error and without results.)
\<close>

theorem runSimulation_resumes:
  "(length existing \<le> n \<and> (\<forall>j. \<not> aborted j)
      \<and> (\<forall>r\<in>set (existing @ map (\<lambda>j. simulate draw j rowsCopy) [length existing ..< n]).
            \<exists>v. statisticFunction stat r = Inr v)
    \<longrightarrow> (\<exists>new ob'. runSimulation draw aborted onProgress obs stat pvType rowsCopy (real n) existing ob
             = Inr (existing @ new, False, ob')
           \<and> length new = n - length existing))
   \<and> (runSimulation draw aborted onProgress obs stat pvType rowsCopy iterations existing ob
         = Inr (res, a, ob')
      \<longrightarrow> prefix existing res)"
proof (intro conjI impI)
  assume h: "length existing \<le> n \<and> (\<forall>j. \<not> aborted j)
      \<and> (\<forall>r\<in>set (existing @ map (\<lambda>j. simulate draw j rowsCopy) [length existing ..< n]).
            \<exists>v. statisticFunction stat r = Inr v)"
  then have "\<exists>ob'. runSimulation_from draw aborted onProgress obs stat pvType rowsCopy (real n)
       (length existing) existing ob
     = Inr (existing @ map (\<lambda>j. simulate draw j rowsCopy) [length existing ..< n], False, ob')"
    by (intro runSimulation_from_completes) simp_all
  then show "\<exists>new ob'. runSimulation draw aborted onProgress obs stat pvType rowsCopy (real n) existing ob
             = Inr (existing @ new, False, ob') \<and> length new = n - length existing"
    by (auto simp: runSimulation_def)
next
  assume "runSimulation draw aborted onProgress obs stat pvType rowsCopy iterations existing ob
         = Inr (res, a, ob')"
  then show "prefix existing res"
    unfolding runSimulation_def by (rule runSimulation_from_keeps)
qed

theorem runSimulation_resumes_witness:
  "runSimulation keepLabels neverAborted recordProgress (Some 5) DifferenceInMeans TwoTailed
     [] 4 (take 2 pValueExample) []
   = Inr (take 2 pValueExample @ [[], []], False, [Num (1 / 3), Num (1 / 4)])
   \<and> runSimulation keepLabels neverAborted recordProgress (Some 5) DifferenceInMeans TwoTailed
     [] 2 (take 2 pValueExample) []
   = Inr (take 2 pValueExample, False, [])"
  using runSimulation_resumes [of "take 2 pValueExample" 4 neverAborted keepLabels "[]"
          DifferenceInMeans recordProgress "Some 5" TwoTailed "[]"]
        runSimulation_resumes [of "take 2 pValueExample" 2 neverAborted keepLabels "[]"
          DifferenceInMeans recordProgress "Some 5" TwoTailed "[]"]
  by (simp add: runSimulation_def runSimulation_from.simps neverAborted_def keepLabels_def
        recordProgress_def simulate_def filterValidRows_def pValueExample_def statistic_defs
        calculatePValue_def js_div_count_def observed_number_def)

lemma oneArmTable_rows:
  "table_rows (heap oneArmTable) (userData oneArmTable)
     = [mkRow [Some 1, Some 2] (Some 0), mkRow [Some 3, Some 4] (Some 0),
        mkRow [Some 5, None] (Some 1), emptyRow 2]"
  by (simp add: oneArmTable_def state0_def template_def table_rows_def)

lemma oneArmTable_trial:
  "simulate keepLabels i [mkRow [Some 1, Some 2] (Some 0), mkRow [Some 3, Some 4] (Some 0),
        mkRow [Some 5, None] (Some 1), emptyRow 2]
     = [mkRow [Some 1, Some 2] (Some 0), mkRow [Some 3, Some 4] (Some 0)]"
  by (simp add: simulate_def keepLabels_def filterValidRows_def mkRow_def emptyRow_def)

lemma oneArmTable_statistic:
  "wilcoxonRankSum [mkRow [Some 1, Some 2] (Some 0), mkRow [Some 3, Some 4] (Some 0)]
     = Inl (Error ''Wilcoxon rank-sum test requires exactly two groups.'')"
  by (simp add: wilcoxonRankSum_def Let_def groupRows_def push_group_def firstCell_def
        index_cell_def object_values_def index_key_def mkRow_def)

lemma oneArmTable_pValue:
  "calculatePValue x [[mkRow [Some 1, Some 2] (Some 0), mkRow [Some 3, Some 4] (Some 0)]]
      WilcoxonRankSum TwoTailed
     = Inl (Error ''Wilcoxon rank-sum test requires exactly two groups.'')"
  by (simp add: calculatePValue_def oneArmTable_statistic)

text \<open>
  The table below satisfies the invariants and \<open>START_SIMULATION\<close> accepts it (two complete
  rows), but both complete rows are in group 0. With the Wilcoxon statistic selected, the
  p-value of the first trial cannot be computed: the loop started with no results and the
  budget 3 ends with the error and returns no results at all, instead of three new trials.
\<close>

theorem runSimulation_counterexample:
  "table_invariant (heap oneArmTable) (userData oneArmTable)
   \<and> simulationReducer template oneArmTable START_SIMULATION
       = Inr (oneArmTable\<lparr>isSimulating := True, error := None\<rparr>)
   \<and> runSimulation keepLabels neverAborted recordProgress (Some 0) WilcoxonRankSum TwoTailed
       (table_rows (heap oneArmTable) (userData oneArmTable)) 3 [] []
       = Inl (Error ''Wilcoxon rank-sum test requires exactly two groups.'')"
proof (intro conjI)
  show "table_invariant (heap oneArmTable) (userData oneArmTable)"
    by (simp add: table_invariant_def oneArmTable_rows assignment_in_range_def mkRow_def
          emptyRow_def)
       (simp add: oneArmTable_def state0_def template_def)
next
  have "filter completeRow (table_rows (heap oneArmTable) (userData oneArmTable))
          = [mkRow [Some 1, Some 2] (Some 0), mkRow [Some 3, Some 4] (Some 0)]"
    by (simp add: oneArmTable_rows completeRow_def mkRow_def emptyRow_def)
  then have two: "filter completeRow (map (\<lambda>a. heap oneArmTable ! a) (rows (userData oneArmTable)))
          = [mkRow [Some 1, Some 2] (Some 0), mkRow [Some 3, Some 4] (Some 0)]"
    by (simp add: table_rows_def)
  have "\<not> isSimulating oneArmTable" by (simp add: oneArmTable_def state0_def)
  with two show "simulationReducer template oneArmTable START_SIMULATION
       = Inr (oneArmTable\<lparr>isSimulating := True, error := None\<rparr>)"
    by (simp add: Let_def)
next
  show "runSimulation keepLabels neverAborted recordProgress (Some 0) WilcoxonRankSum TwoTailed
       (table_rows (heap oneArmTable) (userData oneArmTable)) 3 [] []
       = Inl (Error ''Wilcoxon rank-sum test requires exactly two groups.'')"
    unfolding oneArmTable_rows runSimulation_def
    by (subst runSimulation_from.simps)
       (simp add: neverAborted_def oneArmTable_trial oneArmTable_pValue Let_def)
qed

section \<open>Grouping rows by assignment\<close>

lemma map_of_push_existing:
  "map_of (map (\<lambda>(k', g). if k' = k then (k', g @ [v]) else (k', g)) acc) k'
     = (if k' = k then map_option (\<lambda>g. g @ [v]) (map_of acc k) else map_of acc k')"
  by (induction acc) auto

lemma group_lookup_push:
  "group_lookup (push_group k v acc) k' = group_lookup acc k' @ (if k' = k then [v] else [])"
proof (cases "k \<in> set (map fst acc)")
  case True
  then obtain g where "map_of acc k = Some g"
    by (metis map_of_eq_None_iff not_Some_eq set_map)
  with True show ?thesis
    by (simp add: group_lookup_def push_group_def map_of_push_existing)
next
  case False
  then have "map_of acc k = None" by (simp add: map_of_eq_None_iff)
  with False show ?thesis
    by (auto simp: group_lookup_def push_group_def map_add_def split: option.splits)
qed

lemma keys_push_group:
  "map fst (push_group k v acc) = (if k \<in> set (map fst acc) then map fst acc else map fst acc @ [k])"
  by (auto simp: push_group_def case_prod_beta' comp_def)

lemma group_of_Cons:
  "group_of cell k (row # rs) =
     (if assignment row = k then (case cell row of None \<Rightarrow> [] | Some v \<Rightarrow> [v]) else [])
     @ group_of cell k rs"
  by (simp add: group_of_def List.map_filter_simps split: option.splits)

lemma group_of_Nil: "group_of cell k [] = []"
  by (simp add: group_of_def List.map_filter_simps)

lemma fold_groups_lookup:
  "group_lookup (fold (\<lambda>row acc. case cell row of Some v \<Rightarrow> push_group (assignment row) v acc
                                     | None \<Rightarrow> acc) rs acc) k
     = group_lookup acc k @ group_of cell k rs"
  by (induction rs arbitrary: acc)
     (auto simp: group_of_Cons group_of_Nil group_lookup_push split: option.splits)

lemma key_set_push_group: "fst ` set (push_group k v acc) = insert k (fst ` set acc)"
  using keys_push_group [of k v acc, THEN arg_cong, of set] by (auto split: if_splits)

lemma fold_groups_keys:
  "fst ` set (fold (\<lambda>row acc. case cell row of Some v \<Rightarrow> push_group (assignment row) v acc
                                     | None \<Rightarrow> acc) rs acc)
     = fst ` set acc \<union> {assignment row |row. row \<in> set rs \<and> cell row \<noteq> None}"
proof (induction rs arbitrary: acc)
  case Nil
  then show ?case by simp
next
  case (Cons r rs)
  show ?case
  proof (cases "cell r")
    case None
    with Cons.IH [of acc] show ?thesis by auto
  next
    case (Some v)
    with Cons.IH [of "push_group (assignment r) v acc"] show ?thesis
      by (auto simp: key_set_push_group)
  qed
qed

lemma fold_groups_distinct:
  "distinct (map fst acc) \<Longrightarrow>
   distinct (map fst (fold (\<lambda>row acc. case cell row of Some v \<Rightarrow> push_group (assignment row) v acc
                                     | None \<Rightarrow> acc) rs acc))"
  by (induction rs arbitrary: acc) (auto simp: keys_push_group split: option.splits)

lemma group_of_nonempty:
  "group_of cell k rs \<noteq> [] \<longleftrightarrow> (\<exists>row\<in>set rs. assignment row = k \<and> cell row \<noteq> None)"
  by (induction rs) (auto simp: group_of_Cons group_of_Nil split: option.splits)

lemma groupRows_distinct: "distinct (map fst (groupRows cell rs))"
  unfolding groupRows_def by (rule fold_groups_distinct) simp

lemma groupRows_keys:
  "k \<in> fst ` set (groupRows cell rs) \<longleftrightarrow> group_of cell k rs \<noteq> []"
  unfolding groupRows_def by (auto simp: fold_groups_keys group_of_nonempty)

lemma group_lookup_Nil: "group_lookup [] k = []"
  by (simp add: group_lookup_def)

lemma groupRows_lookup: "group_lookup (groupRows cell rs) k = group_of cell k rs"
  unfolding groupRows_def by (simp add: fold_groups_lookup group_lookup_Nil)

lemma groupRows_entry:
  "(k, g) \<in> set (groupRows cell rs) \<longleftrightarrow> g = group_of cell k rs \<and> g \<noteq> []"
proof
  assume m: "(k, g) \<in> set (groupRows cell rs)"
  with groupRows_distinct [of cell rs] have "map_of (groupRows cell rs) k = Some g" by simp
  then have "g = group_of cell k rs"
    using groupRows_lookup [of cell rs k] by (simp add: group_lookup_def)
  moreover from m have "k \<in> fst ` set (groupRows cell rs)" by force
  then have "group_of cell k rs \<noteq> []" by (simp add: groupRows_keys)
  ultimately show "g = group_of cell k rs \<and> g \<noteq> []" by simp
next
  assume a: "g = group_of cell k rs \<and> g \<noteq> []"
  then have "k \<in> fst ` set (groupRows cell rs)" by (auto simp: groupRows_keys)
  then obtain g' where g': "(k, g') \<in> set (groupRows cell rs)" by auto
  with groupRows_distinct [of cell rs] have "map_of (groupRows cell rs) k = Some g'" by simp
  then have "g' = group_of cell k rs"
    using groupRows_lookup [of cell rs k] by (simp add: group_lookup_def)
  with a g' show "(k, g) \<in> set (groupRows cell rs)" by simp
qed

lemma length_object_values: "length (object_values acc) = length acc"
  by (simp add: object_values_def sum_length_filter_compl)

lemma sorted_from_zero:
  fixes ks :: "int list"
  assumes "sorted ks" "distinct ks" "\<forall>x\<in>set ks. 0 \<le> x" "0 \<in> set ks" "1 \<in> set ks"
  shows "\<exists>rest. ks = 0 # 1 # rest"
proof (cases ks)
  case Nil
  with assms show ?thesis by simp
next
  case (Cons x xs)
  with assms have x: "x = 0" by force
  with Cons assms have xs: "1 \<in> set xs" "0 \<notin> set xs" "sorted xs" "\<forall>y\<in>set xs. 0 \<le> y" by auto
  then obtain y ys where ys: "xs = y # ys" by (cases xs) auto
  with xs have "y \<le> 1" "0 \<le> y" "y \<noteq> 0" by auto
  then have "y = 1" by simp
  with x Cons ys show ?thesis by simp
qed

lemma object_values_two_first:
  assumes d: "distinct (map fst acc)"
      and g0: "(Some 0, g0) \<in> set acc" and g1: "(Some 1, g1) \<in> set acc"
  shows "\<exists>rest. object_values acc = g0 # g1 # rest"
proof -
  let ?I = "filter (\<lambda>p. index_key (fst p)) acc"
  let ?f = "\<lambda>p :: int option \<times> 'a. the (fst p)"
  let ?S = "sort_key ?f ?I"
  have setS: "set ?S = set ?I" by simp
  have some: "\<exists>i. fst p = Some i \<and> 0 \<le> i" if "p \<in> set ?I" for p
    using that by (auto simp: index_key_def split: option.splits)
  from d have inj_acc: "inj_on fst (set acc)" by (simp add: distinct_map)
  have inj: "inj_on ?f (set ?S)"
  proof (rule inj_onI)
    fix p q assume p: "p \<in> set ?S" and q: "q \<in> set ?S" and e: "?f p = ?f q"
    from p q some have "fst p = fst q" using e by (metis option.sel setS)
    with inj_acc p q show "p = q" by (auto dest: inj_onD)
  qed
  from d have "distinct acc" by (simp add: distinct_map)
  then have dS: "distinct ?S" by simp
  have "sorted (map ?f ?S)" by (rule sorted_sort_key)
  moreover from dS inj have "distinct (map ?f ?S)" by (simp add: distinct_map)
  moreover have "\<forall>x\<in>set (map ?f ?S). 0 \<le> x"
    by (auto simp: index_key_def split: option.splits)
  moreover from g0 have "(Some 0, g0) \<in> set ?S" by (simp add: index_key_def)
  then have "0 \<in> set (map ?f ?S)" by force
  moreover from g1 have "(Some 1, g1) \<in> set ?S" by (simp add: index_key_def)
  then have "1 \<in> set (map ?f ?S)" by force
  ultimately have "\<exists>rest. map ?f ?S = 0 # 1 # rest"
    by (rule sorted_from_zero)
  then obtain rest where ks: "map ?f ?S = 0 # 1 # rest" ..
  then obtain p0 p1 S' where S: "?S = p0 # p1 # S'" "?f p0 = 0" "?f p1 = 1"
    by (auto simp: map_eq_Cons_conv)
  then have "p0 \<in> set ?I" "p1 \<in> set ?I" using setS by (metis list.set_intros)+
  with some S have f: "fst p0 = Some 0" "fst p1 = Some 1" and m: "p0 \<in> set acc" "p1 \<in> set acc"
    by fastforce+
  from inj_onD [OF inj_acc, of p0 "(Some 0, g0)"] m f g0 have "p0 = (Some 0, g0)" by simp
  moreover
  from inj_onD [OF inj_acc, of p1 "(Some 1, g1)"] m f g1 have "p1 = (Some 1, g1)" by simp
  ultimately have "p0 = (Some 0, g0)" "p1 = (Some 1, g1)" by simp_all
  with S show ?thesis by (simp add: object_values_def)
qed

lemma differenceInMeans_two_groups:
  assumes "group_of ownCell (Some 0) rs \<noteq> []" "group_of ownCell (Some 1) rs \<noteq> []"
  shows "differenceInMeans rs =
           sum_list (group_of ownCell (Some 1) rs) / real (length (group_of ownCell (Some 1) rs))
         - sum_list (group_of ownCell (Some 0) rs) / real (length (group_of ownCell (Some 0) rs))"
proof -
  from assms have ne: "rs \<noteq> []" by (auto simp: group_of_Nil)
  from assms have "(Some 0, group_of ownCell (Some 0) rs) \<in> set (groupRows ownCell rs)"
    "(Some 1, group_of ownCell (Some 1) rs) \<in> set (groupRows ownCell rs)"
    by (simp_all add: groupRows_entry)
  from object_values_two_first [OF groupRows_distinct this] obtain rest where
    "object_values (groupRows ownCell rs)
       = group_of ownCell (Some 0) rs # group_of ownCell (Some 1) rs # rest" ..
  with ne assms show ?thesis
    by (simp add: differenceInMeans_def Let_def groupMean_def)
qed

lemma differenceInMeans_one_group:
  assumes "\<forall>k. k \<noteq> k0 \<longrightarrow> group_of ownCell k rs = []"
  shows "differenceInMeans rs = 0"
proof -
  have "fst ` set (groupRows ownCell rs) \<subseteq> {k0}"
    using assms groupRows_keys [of _ ownCell rs] by blast
  then have "card (fst ` set (groupRows ownCell rs)) \<le> card {k0}"
    by (intro card_mono) simp_all
  then have "card (fst ` set (groupRows ownCell rs)) \<le> 1" by simp
  moreover have "card (fst ` set (groupRows ownCell rs)) = length (groupRows ownCell rs)"
    using distinct_card [OF groupRows_distinct [of ownCell rs]] by simp
  ultimately have "length (object_values (groupRows ownCell rs)) \<le> 1"
    by (simp add: length_object_values)
  then show ?thesis
    by (simp add: differenceInMeans_def Let_def)
qed

section \<open>Difference in means\<close>

text \<open>
  C6, as the code has it. The rows are grouped by assignment, each row contributing the cell
  at its own assignment index when that is a number. When group 0 and group 1 are both
  non-empty the statistic is \<open>mean(group 1) - mean(group 0)\<close>; when at most one group is
  non-empty it is 0, and so it is on the empty input. The rows
  \<open>[{data:[3,5], assignment:0}, {data:[4,6], assignment:1}]\<close> give \<open>6 - 3\<close>.
\<close>

theorem differenceInMeans_groups:
  "(group_of ownCell (Some 0) rs \<noteq> [] \<and> group_of ownCell (Some 1) rs \<noteq> [] \<longrightarrow>
      differenceInMeans rs =
           sum_list (group_of ownCell (Some 1) rs) / real (length (group_of ownCell (Some 1) rs))
         - sum_list (group_of ownCell (Some 0) rs) / real (length (group_of ownCell (Some 0) rs)))
   \<and> ((\<forall>k. k \<noteq> k0 \<longrightarrow> group_of ownCell k rs = []) \<longrightarrow> differenceInMeans rs = 0)
   \<and> differenceInMeans [] = 0
   \<and> differenceInMeans twoGroupRows = 6 - 3"
  using differenceInMeans_two_groups [of rs] differenceInMeans_one_group [of k0 rs]
  by (simp add: twoGroupRows_def statistic_defs)

theorem differenceInMeans_groups_witness:
  "group_of ownCell (Some 0) twoGroupRows = [3] \<and> group_of ownCell (Some 1) twoGroupRows = [6]
   \<and> differenceInMeans twoGroupRows = 3
   \<and> group_of ownCell (Some 0) oneGroupRows = [] \<and> group_of ownCell (Some 1) oneGroupRows = [5, 6]
   \<and> differenceInMeans oneGroupRows = 0"
  using differenceInMeans_groups [of twoGroupRows "Some 1"]
        differenceInMeans_groups [of oneGroupRows "Some 1"]
  by (simp add: twoGroupRows_def oneGroupRows_def group_of_def List.map_filter_simps statistic_defs)

text \<open>
  With every row in group 1 the code returns 0, while group 1 has the mean 5.5 and group 0
  is empty: the result is not \<open>mean(group 1) - mean(group 0)\<close>.
\<close>

theorem differenceInMeans_counterexample:
  "differenceInMeans oneGroupRows = 0
   \<and> group_of ownCell (Some 1) oneGroupRows = [5, 6]
   \<and> group_of ownCell (Some 0) oneGroupRows = []
   \<and> differenceInMeans_spec oneGroupRows = 11 / 2
   \<and> differenceInMeans oneGroupRows \<noteq> differenceInMeans_spec oneGroupRows"
  by (simp add: oneGroupRows_def differenceInMeans_spec_def group_of_def List.map_filter_simps
        statistic_defs)

section \<open>Wilcoxon rank sum\<close>

text \<open>
  The ranks computed by \<open>rank\<close>: the loop over the sorted array gives the element at
  position \<open>i\<close> of the input one more than the number of input values strictly smaller than
  it, so equal values share the lowest rank of their run.
\<close>

lemma rank_loop_invariant:
  fixes S :: "(real \<times> nat) list"
  assumes srt: "sorted (map fst S)" and dst: "distinct (map snd S)"
      and rng: "\<forall>t<length S. snd (S ! t) < n"
      and m: "m \<le> length S"
  defines "below \<equiv> \<lambda>t. card {u. u < length S \<and> fst (S ! u) < fst (S ! t)}"
  shows "case fold (\<lambda>i (ranks, currentRank).
                 let currentRank = (if i > 0 \<and> fst (S ! i) \<noteq> fst (S ! (i - 1))
                                    then i + 1 else currentRank)
                 in (ranks[snd (S ! i) := currentRank], currentRank))
               [0 ..< m] (replicate n 0, 1) of
           (ranks, currentRank) \<Rightarrow>
             length ranks = n
             \<and> (\<forall>t<m. ranks ! snd (S ! t) = Suc (below t))
             \<and> (m > 0 \<longrightarrow> currentRank = Suc (below (m - 1)))"
  using m
proof (induction m)
  case 0
  then show ?case by simp
next
  case (Suc m)
  let ?step = "\<lambda>i (ranks, currentRank).
                 let currentRank = (if i > 0 \<and> fst (S ! i) \<noteq> fst (S ! (i - 1))
                                    then i + 1 else currentRank)
                 in (ranks[snd (S ! i) := currentRank], currentRank)"
  obtain ranks cur where f: "fold ?step [0 ..< m] (replicate n 0, 1) = (ranks, cur)"
    by (cases "fold ?step [0 ..< m] (replicate n 0, 1)")
  from Suc have mS: "m < length S" by simp
  with Suc.IH f have len: "length ranks = n"
    and old: "\<forall>t<m. ranks ! snd (S ! t) = Suc (below t)"
    and curm: "m > 0 \<longrightarrow> cur = Suc (below (m - 1))"
    by auto
  have mono: "fst (S ! u) \<le> fst (S ! w)" if "u \<le> w" "w < length S" for u w
    using srt that by (simp add: sorted_iff_nth_mono)
  let ?cur' = "if m > 0 \<and> fst (S ! m) \<noteq> fst (S ! (m - 1)) then m + 1 else cur"
  have cur': "?cur' = Suc (below m)"
  proof (cases "m = 0")
    case True
    have "\<not> (u < length S \<and> fst (S ! u) < fst (S ! 0))" for u
      using mono [of 0 u] by (cases "u < length S") auto
    then have "{u. u < length S \<and> fst (S ! u) < fst (S ! 0)} = {}" by blast
    then have "below 0 = 0" by (simp add: below_def)
    moreover from f True have "cur = 1" by simp
    ultimately show ?thesis using True by simp
  next
    case False
    show ?thesis
    proof (cases "fst (S ! m) = fst (S ! (m - 1))")
      case True
      with False curm show ?thesis by (simp add: below_def)
    next
      case ne: False
      from False mS mono [of "m - 1" m] ne have lt: "fst (S ! (m - 1)) < fst (S ! m)" by simp
      have "{u. u < length S \<and> fst (S ! u) < fst (S ! m)} = {u. u < m}"
      proof (intro set_eqI iffI; clarsimp)
        fix u assume "u < length S" "fst (S ! u) < fst (S ! m)"
        then show "u < m" using mono [of m u] by (cases "u < m") auto
      next
        fix u assume u: "u < m"
        with mS have "u \<le> m - 1" "m - 1 < length S" by auto
        then have "fst (S ! u) \<le> fst (S ! (m - 1))" by (rule mono)
        with lt u mS show "u < length S \<and> fst (S ! u) < fst (S ! m)" by auto
      qed
      with False ne show ?thesis by (simp add: below_def)
    qed
  qed
  have idx: "snd (S ! m) < n" using rng mS by simp
  have other: "snd (S ! t) \<noteq> snd (S ! m)" if "t < m" for t
    using dst that mS by (auto simp: distinct_conv_nth)
  have "fold ?step [0 ..< Suc m] (replicate n 0, 1)
          = ?step m (fold ?step [0 ..< m] (replicate n 0, 1))"
    by simp
  also have "\<dots> = ?step m (ranks, cur)" by (simp only: f)
  also have "\<dots> = (ranks[snd (S ! m) := ?cur'], ?cur')" by (simp add: Let_def)
  finally have "fold ?step [0 ..< Suc m] (replicate n 0, 1)
          = (ranks[snd (S ! m) := ?cur'], ?cur')" .
  moreover have "length (ranks[snd (S ! m) := ?cur']) = n" using len by simp
  moreover have "\<forall>t<Suc m. (ranks[snd (S ! m) := ?cur']) ! snd (S ! t) = Suc (below t)"
  proof (intro allI impI)
    fix t assume "t < Suc m"
    then consider "t = m" | "t < m" by linarith
    then show "(ranks[snd (S ! m) := ?cur']) ! snd (S ! t) = Suc (below t)"
    proof cases
      case 1
      with idx len cur' show ?thesis by simp
    next
      case 2
      with other [of t] old show ?thesis by simp
    qed
  qed
  ultimately show ?case using cur' by simp
qed

lemma rank_counts_smaller:
  assumes i: "i < length values"
  shows "rank values ! i = Suc (card {j. j < length values \<and> values ! j < values ! i})"
proof -
  let ?n = "length values"
  let ?Z = "zip values [0 ..< ?n]"
  let ?S = "sort_key fst ?Z"
  have lenS: "length ?S = ?n" by simp
  have setS: "set ?S = set ?Z" by simp
  have el: "snd p < ?n \<and> fst p = values ! snd p" if "p \<in> set ?Z" for p
    using that by (auto simp: in_set_zip)
  have inS: "?S ! t \<in> set ?Z" if "t < ?n" for t
    using that lenS setS by (metis nth_mem)
  have srt: "sorted (map fst ?S)" by (rule sorted_sort_key)
  have "distinct ?Z" by (simp add: distinct_zipI2)
  then have dS: "distinct ?S" by simp
  have "inj_on snd (set ?S)"
    unfolding setS by (rule inj_onI) (metis el prod.collapse)
  with dS have dst: "distinct (map snd ?S)" by (simp add: distinct_map)
  have rng: "\<forall>t<length ?S. snd (?S ! t) < ?n" using inS el by simp
  let ?below = "\<lambda>t. card {u. u < length ?S \<and> fst (?S ! u) < fst (?S ! t)}"
  from rank_loop_invariant [OF srt dst rng order_refl]
  have inv: "\<forall>t<?n. rank values ! snd (?S ! t) = Suc (?below t)"
    by (simp add: rank_def Let_def split: prod.splits)
  from i have "(values ! i, i) \<in> set ?S"
    unfolding setS by (auto simp: in_set_zip)
  then obtain t where t: "t < ?n" "?S ! t = (values ! i, i)"
    using lenS by (metis in_set_conv_nth)
  have "?below t = card {j. j < ?n \<and> values ! j < values ! i}"
  proof -
    let ?g = "\<lambda>u. snd (?S ! u)"
    let ?A = "{u. u < length ?S \<and> fst (?S ! u) < fst (?S ! t)}"
    have "inj_on ?g ?A"
    proof (rule inj_onI)
      fix u w assume "u \<in> ?A" "w \<in> ?A" "?g u = ?g w"
      with dst show "u = w" by (auto simp: distinct_conv_nth)
    qed
    then have "card (?g ` ?A) = card ?A" by (rule card_image)
    moreover have "?g ` ?A = {j. j < ?n \<and> values ! j < values ! i}"
    proof (intro set_eqI iffI)
      fix j assume "j \<in> ?g ` ?A"
      then obtain u where u: "u < ?n" "fst (?S ! u) < fst (?S ! t)" "j = snd (?S ! u)"
        by auto
      with el [OF inS [OF u(1)]] t show "j \<in> {j. j < ?n \<and> values ! j < values ! i}" by simp
    next
      fix j assume "j \<in> {j. j < ?n \<and> values ! j < values ! i}"
      then have j: "j < ?n" "values ! j < values ! i" by auto
      then have "(values ! j, j) \<in> set ?S" unfolding setS by (auto simp: in_set_zip)
      then obtain u where u: "u < ?n" "?S ! u = (values ! j, j)"
        using lenS by (metis in_set_conv_nth)
      with j t have "u \<in> ?A" by simp
      with u show "j \<in> ?g ` ?A" by force
    qed
    ultimately show ?thesis by simp
  qed
  with inv t show ?thesis by auto
qed


lemma groupRows_key_set:
  "fst ` set (groupRows cell rs) = {k. group_of cell k rs \<noteq> []}"
  using groupRows_keys [of _ cell rs] by blast

lemma length_groupRows:
  "length (groupRows cell rs) = card {k. group_of cell k rs \<noteq> []}"
  using distinct_card [OF groupRows_distinct [of cell rs]]
  by (simp add: groupRows_key_set [symmetric])

lemma object_values_pair:
  assumes d: "distinct (map fst acc)" and len: "length acc = 2"
      and gi: "(Some i, gi) \<in> set acc" and gj: "(Some j, gj) \<in> set acc"
      and ij: "0 \<le> i" "i < j" "j < 4294967295"
  shows "object_values acc = [gi, gj]"
proof -
  from len obtain a b where acc: "acc = [a, b]"
    by (cases acc; cases "tl acc") auto
  with d gi gj ij have "acc = [(Some i, gi), (Some j, gj)] \<or> acc = [(Some j, gj), (Some i, gi)]"
    by auto
  with ij show ?thesis
    by (auto simp: object_values_def index_key_def)
qed

lemma wilcoxonRankSum_wrong_groups:
  assumes "rs \<noteq> []" "card {k. group_of firstCell k rs \<noteq> []} \<noteq> 2"
  shows "wilcoxonRankSum rs = Inl (Error ''Wilcoxon rank-sum test requires exactly two groups.'')"
  using assms
  by (simp add: wilcoxonRankSum_def Let_def length_object_values length_groupRows)

lemma wilcoxonRankSum_two_groups:
  assumes ij: "0 \<le> i" "i < j" "j < 4294967295"
      and g1: "group_of firstCell (Some i) rs = g1" "g1 \<noteq> []"
      and g2: "group_of firstCell (Some j) rs = g2" "g2 \<noteq> []"
      and others: "\<forall>k. k \<noteq> Some i \<and> k \<noteq> Some j \<longrightarrow> group_of firstCell k rs = []"
  shows "wilcoxonRankSum rs =
     Inr (min (real (sum_list (take (length g1) (rank (g1 @ g2))))
                 - real (length g1 * (length g1 + 1)) / 2)
              (real (length g1 * length g2)
                 - (real (sum_list (take (length g1) (rank (g1 @ g2))))
                      - real (length g1 * (length g1 + 1)) / 2)))"
proof -
  from g1 have ne: "rs \<noteq> []" by (auto simp: group_of_Nil)
  from g1 g2 others ij have "{k. group_of firstCell k rs \<noteq> []} = {Some i, Some j}" by auto
  with ij have len: "length (groupRows firstCell rs) = 2"
    by (simp add: length_groupRows)
  from g1 g2 have "(Some i, g1) \<in> set (groupRows firstCell rs)"
    "(Some j, g2) \<in> set (groupRows firstCell rs)"
    by (simp_all add: groupRows_entry)
  from object_values_pair [OF groupRows_distinct len this ij]
  have "object_values (groupRows firstCell rs) = [g1, g2]" .
  with ne show ?thesis
    by (simp add: wilcoxonRankSum_def Let_def)
qed

lemma wilcoxonExample_groups:
  "object_values (groupRows firstCell wilcoxonExample) = [[1, 2, 3], [4, 5, 6]]"
  by (simp add: wilcoxonExample_def groupRows_def push_group_def firstCell_def index_cell_def
        object_values_def index_key_def mkRow_def)

lemma rank_one_to_six: "rank [1, 2, 3, 4, 5, 6] = [1, 2, 3, 4, 5, 6]"
  by (simp add: rank_def Let_def upt_rec)

lemma wilcoxonExample_statistic: "wilcoxonRankSum wilcoxonExample = Inr 0"
proof -
  have "wilcoxonExample \<noteq> []" by (simp add: wilcoxonExample_def)
  then show ?thesis
    by (simp add: wilcoxonRankSum_def Let_def wilcoxonExample_groups rank_one_to_six)
qed

lemma wilcoxon_no_number:
  "wilcoxonRankSum [mkRow [None, None] None]
       = Inl (Error ''Wilcoxon rank-sum test requires exactly two groups.'')"
  by (simp add: wilcoxonRankSum_def Let_def groupRows_def push_group_def firstCell_def
        index_cell_def object_values_def index_key_def mkRow_def)

lemma wilcoxonExample_group0: "group_of firstCell (Some 0) wilcoxonExample = [1, 2, 3]"
  by (simp add: wilcoxonExample_def group_of_def firstCell_def index_cell_def mkRow_def
        List.map_filter_def)

lemma wilcoxonExample_group1: "group_of firstCell (Some 1) wilcoxonExample = [4, 5, 6]"
  by (simp add: wilcoxonExample_def group_of_def firstCell_def index_cell_def mkRow_def
        List.map_filter_def)

lemma wilcoxonExample_other_groups:
  "k \<noteq> Some 0 \<and> k \<noteq> Some 1 \<longrightarrow> group_of firstCell k wilcoxonExample = []"
  by (auto simp: wilcoxonExample_def group_of_def mkRow_def List.map_filter_def)

lemma no_number_groups: "group_of firstCell k [mkRow [None, None] None] = []"
  by (simp add: group_of_def firstCell_def index_cell_def mkRow_def List.map_filter_def)

text \<open>
  C5, as the code has it. The rows are partitioned by assignment, each row contributing its
  column-0 value when that is a number. On the empty input the statistic is 0. On a
  non-empty input it fails with the error "requires exactly two groups" whenever the
  number of non-empty groups differs from two. When exactly two groups are non-empty, those
  of the column indices \<open>i < j\<close>, it is \<open>min(U1, U2)\<close> with
  \<open>U1 = rankSum(group i) - n1(n1+1)/2\<close> and \<open>U2 = n1 n2 - U1\<close>, the ranks being taken in
  the two groups combined. For the groups [1,2,3] and [4,5,6] the ranks are 1 to 6 and the
  statistic is 0.
\<close>

theorem wilcoxonRankSum_groups:
  "wilcoxonRankSum [] = Inr 0
   \<and> (rs \<noteq> [] \<and> card {k. group_of firstCell k rs \<noteq> []} \<noteq> 2 \<longrightarrow>
        wilcoxonRankSum rs = Inl (Error ''Wilcoxon rank-sum test requires exactly two groups.''))
   \<and> (0 \<le> i \<and> i < j \<and> j < 4294967295
        \<and> group_of firstCell (Some i) rs = g1 \<and> g1 \<noteq> []
        \<and> group_of firstCell (Some j) rs = g2 \<and> g2 \<noteq> []
        \<and> (\<forall>k. k \<noteq> Some i \<and> k \<noteq> Some j \<longrightarrow> group_of firstCell k rs = []) \<longrightarrow>
        wilcoxonRankSum rs =
          Inr (min (real (sum_list (take (length g1) (rank (g1 @ g2))))
                      - real (length g1 * (length g1 + 1)) / 2)
                   (real (length g1 * length g2)
                      - (real (sum_list (take (length g1) (rank (g1 @ g2))))
                           - real (length g1 * (length g1 + 1)) / 2))))
   \<and> group_of firstCell (Some 0) wilcoxonExample = [1, 2, 3]
   \<and> group_of firstCell (Some 1) wilcoxonExample = [4, 5, 6]
   \<and> rank [1, 2, 3, 4, 5, 6] = [1, 2, 3, 4, 5, 6]
   \<and> wilcoxonRankSum wilcoxonExample = Inr 0"
proof (intro conjI impI)
  show "wilcoxonRankSum [] = Inr 0" by (simp add: wilcoxonRankSum_def)
next
  assume "rs \<noteq> [] \<and> card {k. group_of firstCell k rs \<noteq> []} \<noteq> 2"
  then show "wilcoxonRankSum rs = Inl (Error ''Wilcoxon rank-sum test requires exactly two groups.'')"
    by (simp add: wilcoxonRankSum_wrong_groups)
next
  assume "0 \<le> i \<and> i < j \<and> j < 4294967295
        \<and> group_of firstCell (Some i) rs = g1 \<and> g1 \<noteq> []
        \<and> group_of firstCell (Some j) rs = g2 \<and> g2 \<noteq> []
        \<and> (\<forall>k. k \<noteq> Some i \<and> k \<noteq> Some j \<longrightarrow> group_of firstCell k rs = [])"
  then show "wilcoxonRankSum rs =
          Inr (min (real (sum_list (take (length g1) (rank (g1 @ g2))))
                      - real (length g1 * (length g1 + 1)) / 2)
                   (real (length g1 * length g2)
                      - (real (sum_list (take (length g1) (rank (g1 @ g2))))
                           - real (length g1 * (length g1 + 1)) / 2)))"
    by (intro wilcoxonRankSum_two_groups [of i j]) simp_all
next
  show "group_of firstCell (Some 0) wilcoxonExample = [1, 2, 3]"
    by (rule wilcoxonExample_group0)
next
  show "group_of firstCell (Some 1) wilcoxonExample = [4, 5, 6]"
    by (rule wilcoxonExample_group1)
next
  show "rank [1, 2, 3, 4, 5, 6] = [1, 2, 3, 4, 5, 6]"
    by (rule rank_one_to_six)
next
  show "wilcoxonRankSum wilcoxonExample = Inr 0"
    by (rule wilcoxonExample_statistic)
qed

theorem wilcoxonRankSum_groups_witness:
  "group_of firstCell (Some 0) wilcoxonExample = [1, 2, 3]
   \<and> group_of firstCell (Some 1) wilcoxonExample = [4, 5, 6]
   \<and> wilcoxonRankSum wilcoxonExample = Inr 0
   \<and> wilcoxonRankSum [mkRow [None, None] None]
       = Inl (Error ''Wilcoxon rank-sum test requires exactly two groups.'')"
proof -
  have two: "(0::int) \<le> 0 \<and> (0::int) < 1 \<and> (1::int) < 4294967295
        \<and> group_of firstCell (Some 0) wilcoxonExample = [1, 2, 3] \<and> [1, 2, 3] \<noteq> ([]::real list)
        \<and> group_of firstCell (Some 1) wilcoxonExample = [4, 5, 6] \<and> [4, 5, 6] \<noteq> ([]::real list)
        \<and> (\<forall>k. k \<noteq> Some 0 \<and> k \<noteq> Some 1 \<longrightarrow> group_of firstCell k wilcoxonExample = [])"
    using wilcoxonExample_group0 wilcoxonExample_group1 wilcoxonExample_other_groups by simp
  have "wilcoxonRankSum wilcoxonExample =
          Inr (min (real (sum_list (take (length [1, 2, 3 :: real]) (rank ([1, 2, 3] @ [4, 5, 6]))))
                      - real (length [1, 2, 3 :: real] * (length [1, 2, 3 :: real] + 1)) / 2)
                   (real (length [1, 2, 3 :: real] * length [4, 5, 6 :: real])
                      - (real (sum_list (take (length [1, 2, 3 :: real]) (rank ([1, 2, 3] @ [4, 5, 6]))))
                           - real (length [1, 2, 3 :: real] * (length [1, 2, 3 :: real] + 1)) / 2)))"
    using wilcoxonRankSum_groups [of wilcoxonExample 0 1 "[1, 2, 3]" "[4, 5, 6]"] two by blast
  then have ex: "wilcoxonRankSum wilcoxonExample = Inr 0"
    by (simp add: rank_one_to_six)
  have "{k. group_of firstCell k [mkRow [None, None] None] \<noteq> []} = {}"
    by (simp add: no_number_groups)
  then have one: "[mkRow [None, None] None] \<noteq> []
      \<and> card {k. group_of firstCell k [mkRow [None, None] None] \<noteq> []} \<noteq> 2"
    by simp
  have err: "wilcoxonRankSum [mkRow [None, None] None]
       = Inl (Error ''Wilcoxon rank-sum test requires exactly two groups.'')"
    using wilcoxonRankSum_groups [of "[mkRow [None, None] None]" 0 1 "[]" "[]"] one by blast
  from ex err wilcoxonExample_group0 wilcoxonExample_group1 show ?thesis by simp
qed

text \<open>
  On the empty input there is no group at all, and the statistic is 0, not an error.
\<close>

theorem wilcoxonRankSum_counterexample:
  "length (object_values (groupRows firstCell [])) = 0 \<and> wilcoxonRankSum [] = Inr 0"
  by (simp add: wilcoxonRankSum_def groupRows_def object_values_def)

section \<open>Undo and redo\<close>

text \<open>
  Every successful table mutation pushes the current table onto \<open>past\<close> and empties
  \<open>future\<close>. Every mutation but \<open>ADD_ROW\<close> leaves the existing row objects alone (the
  store only grows), so for them \<open>undo\<close> brings back the table as it was; and after any
  mutation, \<open>redo\<close> after \<open>undo\<close> brings back the table the mutation produced.
\<close>

lemma mutation_history:
  assumes "table_mutation a" "simulationReducer INITIAL s a = Inr s1" "error s1 = None"
  shows "past s1 = past s @ [userData s] \<and> future s1 = []"
proof (cases a)
  case (SET_USER_DATA p)
  with assms show ?thesis by (cases p) (auto simp: updateHistory_def setError_def)
next
  case RESET_USER_DATA
  with assms show ?thesis by (auto simp: updateHistory_def)
next
  case EMPTY_USER_DATA
  with assms show ?thesis by (auto simp: updateHistory_def Let_def split: prod.splits)
next
  case ADD_ROW
  with assms show ?thesis
    by (auto simp: updateHistory_def Let_def split: prod.splits if_splits)
next
  case (DELETE_ROW i)
  with assms show ?thesis
    by (auto simp: updateHistory_def setError_def Let_def split: if_splits)
next
  case (UPDATE_CELL r c v)
  with assms show ?thesis
    by (auto simp: updateHistory_def setError_def Let_def split: if_splits prod.splits)
next
  case (SET_BLOCK r b)
  with assms show ?thesis
    by (auto simp: updateHistory_def setError_def Let_def split: if_splits prod.splits)
next
  case (SET_ASSIGNMENT r k)
  with assms show ?thesis
    by (auto simp: updateHistory_def setError_def Let_def split: if_splits prod.splits)
next
  case (RENAME_COLUMN i n)
  with assms show ?thesis
    by (auto simp: updateHistory_def setError_def Let_def split: if_splits)
next
  case (ADD_COLUMN n)
  with assms show ?thesis
    by (auto simp: updateHistory_def setError_def Let_def testStatistics_keys_def
          split: if_splits prod.splits)
next
  case (REMOVE_COLUMN i)
  with assms show ?thesis
    by (auto simp: updateHistory_def setError_def Let_def split: if_splits prod.splits)
qed (use assms in auto)

lemma mutation_extends_heap:
  assumes "table_mutation a" "a \<noteq> ADD_ROW" "simulationReducer INITIAL s a = Inr s1"
  shows "\<exists>ext. heap s1 = heap s @ ext"
proof (cases a)
  case (SET_USER_DATA p)
  with assms show ?thesis by (cases p) (auto simp: updateHistory_def setError_def)
next
  case RESET_USER_DATA
  with assms show ?thesis by (auto simp: updateHistory_def)
next
  case EMPTY_USER_DATA
  with assms show ?thesis by (auto simp: updateHistory_def alloc_map_def Let_def)
next
  case (DELETE_ROW i)
  with assms show ?thesis
    by (auto simp: updateHistory_def setError_def Let_def split: if_splits)
next
  case (UPDATE_CELL r c v)
  with assms show ?thesis
    by (auto simp: updateHistory_def setError_def alloc_def Let_def split: if_splits)
next
  case (SET_BLOCK r b)
  with assms show ?thesis
    by (auto simp: updateHistory_def setError_def alloc_def Let_def split: if_splits)
next
  case (SET_ASSIGNMENT r k)
  with assms show ?thesis
    by (auto simp: updateHistory_def setError_def alloc_def Let_def split: if_splits)
next
  case (RENAME_COLUMN i n)
  with assms show ?thesis
    by (auto simp: updateHistory_def setError_def Let_def split: if_splits)
next
  case (ADD_COLUMN n)
  with assms show ?thesis
    by (auto simp: updateHistory_def setError_def alloc_map_def Let_def testStatistics_keys_def
          split: if_splits)
next
  case (REMOVE_COLUMN i)
  with assms show ?thesis
    by (auto simp: updateHistory_def setError_def alloc_map_def Let_def split: if_splits)
qed (use assms in auto)

lemma tableView_heap_append:
  "refs_ok h t \<Longrightarrow> tableView (h @ ext) t = tableView h t"
  by (simp add: tableView_def table_rows_def refs_ok_def list_all_iff nth_append)

lemma undo_redo_after_mutation:
  assumes tm: "table_mutation a" and run: "simulationReducer INITIAL s a = Inr s1" "error s1 = None"
  shows "\<exists>s2 s3. simulationReducer INITIAL s1 UNDO = Inr s2 \<and> error s2 = None
           \<and> userData s2 = userData s \<and> heap s2 = heap s1
           \<and> simulationReducer INITIAL s2 REDO = Inr s3 \<and> error s3 = None
           \<and> tableView (heap s3) (userData s3) = tableView (heap s1) (userData s1)"
proof -
  from mutation_history [OF tm run] have h: "past s1 = past s @ [userData s]" "future s1 = []"
    by simp_all
  then show ?thesis by (simp add: Let_def)
qed

lemma undo_restores_table:
  assumes tm: "table_mutation a" "a \<noteq> ADD_ROW"
      and ok: "refs_ok (heap s) (userData s)"
      and run: "simulationReducer INITIAL s a = Inr s1" "error s1 = None"
  shows "\<exists>s2. simulationReducer INITIAL s1 UNDO = Inr s2 \<and> error s2 = None
           \<and> tableView (heap s2) (userData s2) = tableView (heap s) (userData s)"
proof -
  from undo_redo_after_mutation [OF tm(1) run] obtain s2 where
    s2: "simulationReducer INITIAL s1 UNDO = Inr s2" "error s2 = None"
        "userData s2 = userData s" "heap s2 = heap s1" by blast
  from mutation_extends_heap [OF tm run(1)] obtain ext where "heap s1 = heap s @ ext" ..
  with s2 ok show ?thesis by (simp add: tableView_heap_append)
qed

text \<open>
  C1 at \<open>addRow\<close>. \<open>ADD_ROW\<close> copies the array of rows but then assigns to the
  \<open>assignment\<close> field of its last row object, and that object is also the last row of the
  table pushed onto \<open>past\<close>. From the initial table, whose staging row has no assignment,
  \<open>addRow\<close> succeeds, and the \<open>undo\<close> that follows yields a table whose row has the
  assignment 1: the table before the mutation is not restored.
\<close>

theorem addRow_undo_changes_table:
  "tableView (heap state0) (userData state0)
     = (columns template, [\<lparr>data = [None, None], assignment = None, block = None\<rparr>],
        colorStack template)
   \<and> error (projr (simulationReducer template state0 ADD_ROW)) = None
   \<and> tableAfter (dispatchAll template state0 [ADD_ROW, UNDO])
     = Some (columns template, [\<lparr>data = [None, None], assignment = Some 1, block = None\<rparr>],
             colorStack template)
   \<and> tableAfter (dispatchAll template state0 [ADD_ROW, UNDO])
     \<noteq> Some (tableView (heap state0) (userData state0))"
  by (simp add: state0_def template_def reducer_defs numeral_2_eq_2)

section \<open>The table invariants\<close>

text \<open>
  The operations keep the invariants of a table whose references are valid, except in two
  situations: deleting the only row, and removing column 0 while a row is assigned to it.
  (Replacing or resetting the table and undo/redo install a table given from outside the
  operation and are not covered here.)
\<close>

lemma assignment_in_range_iff:
  "assignment_in_range n row \<longleftrightarrow> (\<forall>k. assignment row = Some k \<longrightarrow> 0 \<le> k \<and> k < int n)"
  by (simp add: assignment_in_range_def split: option.splits)

lemma table_invariant_iff:
  "table_invariant h t \<longleftrightarrow>
     2 \<le> length (columns t) \<and> 1 \<le> length (rows t)
     \<and> (\<forall>i<length (rows t). \<forall>k. assignment (h ! (rows t ! i)) = Some k
            \<longrightarrow> 0 \<le> k \<and> k < int (length (columns t)))"
  by (simp add: table_invariant_def table_rows_def list_all_length assignment_in_range_iff)

lemma invariant_emptyUserData:
  assumes "table_invariant (heap s) (userData s)"
      and "simulationReducer INITIAL s EMPTY_USER_DATA = Inr s1"
  shows "table_invariant (heap s1) (userData s1)"
  using assms
  by (auto simp: table_invariant_iff Let_def updateHistory_def alloc_map_def nth_append)

lemma invariant_renameColumn:
  assumes "table_invariant (heap s) (userData s)"
      and "simulationReducer INITIAL s (RENAME_COLUMN i n) = Inr s1"
  shows "table_invariant (heap s1) (userData s1)"
  using assms
  by (auto simp: table_invariant_iff Let_def updateHistory_def setError_def split: if_splits)

lemma invariant_addColumn:
  assumes "table_invariant (heap s) (userData s)"
      and "simulationReducer INITIAL s (ADD_COLUMN n) = Inr s1"
  shows "table_invariant (heap s1) (userData s1)"
  using assms
  by (auto simp: table_invariant_iff Let_def updateHistory_def setError_def alloc_map_def
        nth_append testStatistics_keys_def split: if_splits)

lemma assignment_in_range_mono:
  "assignment_in_range n row \<Longrightarrow> n \<le> m \<Longrightarrow> assignment_in_range m row"
  by (auto simp: assignment_in_range_iff)

lemma invariant_new_rows:
  assumes inv: "table_invariant h t" and ok: "refs_ok h t"
      and cols: "length (columns t) \<le> length (columns t')"
      and ne: "rows t' \<noteq> []"
      and sub: "set (rows t') \<subseteq> set (rows t) \<union> {length h ..< length h + length ext}"
      and new: "\<forall>x\<in>set ext. assignment_in_range (length (columns t')) x"
  shows "table_invariant (h @ ext) t'"
proof -
  have "assignment_in_range (length (columns t')) ((h @ ext) ! a)" if a: "a \<in> set (rows t')" for a
  proof (cases "a \<in> set (rows t)")
    case True
    with ok have "a < length h" by (simp add: refs_ok_def list_all_iff)
    moreover from True inv have "assignment_in_range (length (columns t)) (h ! a)"
      by (simp add: table_invariant_def table_rows_def list_all_iff)
    ultimately show ?thesis using cols by (simp add: nth_append assignment_in_range_mono)
  next
    case False
    with a sub have "a \<in> {length h ..< length h + length ext}" by blast
    then have "length h \<le> a" "a - length h < length ext" by auto
    with new show ?thesis by (simp add: nth_append)
  qed
  with inv cols ne show ?thesis
    by (simp add: table_invariant_def table_rows_def list_all_iff Suc_le_eq)
qed

lemma set_update_new:
  "set (xs[i := length h]) \<subseteq> set xs \<union> {length h ..< length h + Suc n}"
  using set_update_subset_insert [of xs i "length h"] by auto

lemma invariant_setBlock:
  assumes inv: "table_invariant (heap s) (userData s)" and ok: "refs_ok (heap s) (userData s)"
      and run: "simulationReducer INITIAL s (SET_BLOCK r b) = Inr s1"
  shows "table_invariant (heap s1) (userData s1)"
proof (cases "r < 0 \<or> r \<ge> int (length (rows (userData s)))")
  case True
  with inv run show ?thesis by (auto simp: setError_def Let_def)
next
  case False
  let ?x = "(heap s ! (rows (userData s) ! nat r))\<lparr>block := b\<rparr>"
  from False run have s1: "heap s1 = heap s @ [?x]"
      "rows (userData s1) = (rows (userData s))[nat r := length (heap s)]"
      "columns (userData s1) = columns (userData s)"
    by (auto simp: Let_def alloc_def updateHistory_def)
  from False have r: "nat r < length (rows (userData s))" by auto
  with inv have "assignment_in_range (length (columns (userData s))) (heap s ! (rows (userData s) ! nat r))"
    by (simp add: table_invariant_def table_rows_def list_all_length)
  then have x: "assignment_in_range (length (columns (userData s))) ?x"
    by (simp add: assignment_in_range_def)
  have "table_invariant (heap s @ [?x]) (userData s1)"
    using inv ok r x set_update_new [of "rows (userData s)" "nat r" "heap s" 0]
    by (intro invariant_new_rows [where t = "userData s"]) (auto simp: s1)
  then show ?thesis by (simp add: s1)
qed

lemma invariant_deleteRow:
  assumes inv: "table_invariant (heap s) (userData s)" and ok: "refs_ok (heap s) (userData s)"
      and two: "2 \<le> length (rows (userData s))"
      and run: "simulationReducer INITIAL s (DELETE_ROW i) = Inr s1"
  shows "table_invariant (heap s1) (userData s1)"
proof (cases "i < 0 \<or> i \<ge> int (length (rows (userData s)))")
  case True
  with inv run show ?thesis by (auto simp: setError_def Let_def)
next
  case False
  then have i: "0 \<le> i" "i < int (length (rows (userData s)))" by auto
  from False run have s1: "heap s1 = heap s"
      "rows (userData s1) = remove_index i (rows (userData s))"
      "columns (userData s1) = columns (userData s)"
    by (auto simp: Let_def updateHistory_def)
  have sub: "set (remove_index i (rows (userData s))) \<subseteq> set (rows (userData s))"
    using i by (auto simp: remove_index_conv dest: in_set_takeD in_set_dropD)
  from i two have "length (remove_index i (rows (userData s))) \<noteq> 0"
    by (simp add: length_remove_index)
  then have ne: "remove_index i (rows (userData s)) \<noteq> []" by simp
  have "table_invariant (heap s @ []) (userData s1)"
    using inv ok sub ne
    by (intro invariant_new_rows [where t = "userData s"]) (auto simp: s1)
  then show ?thesis by (simp add: s1)
qed

lemma set_update_append_new:
  "set (xs[i := length h] @ [Suc (length h)]) \<subseteq> set xs \<union> {length h ..< length h + 2}"
  using set_update_subset_insert [of xs i "length h"] by auto

lemma emptyRow_in_range: "assignment_in_range n (emptyRow m)"
  by (simp add: assignment_in_range_def emptyRow_def)

lemma invariant_updateCell:
  assumes inv: "table_invariant (heap s) (userData s)" and ok: "refs_ok (heap s) (userData s)"
      and run: "simulationReducer INITIAL s (UPDATE_CELL r c v) = Inr s1"
  shows "table_invariant (heap s1) (userData s1)"
proof (cases "r < 0 \<or> r \<ge> int (length (rows (userData s)))
              \<or> c < 0 \<or> c \<ge> int (length (columns (userData s)))")
  case True
  with inv run show ?thesis by (auto simp: setError_def Let_def split: if_splits)
next
  case False
  let ?n = "length (columns (userData s))"
  let ?row = "heap s ! (rows (userData s) ! nat r)"
  let ?last = "r = int (length (rows (userData s))) - 1"
  let ?x = "?row\<lparr>data := take (nat c) (data ?row) @ v # drop (Suc (nat c)) (data ?row),
                  assignment := (if ?last then Some c else assignment ?row)\<rparr>"
  let ?ext = "[?x] @ (if ?last \<and> v \<noteq> None then [emptyRow ?n] else [])"
  from False run have s1: "heap s1 = heap s @ ?ext"
      "rows (userData s1) = (rows (userData s))[nat r := length (heap s)]
          @ (if ?last \<and> v \<noteq> None then [Suc (length (heap s))] else [])"
      "columns (userData s1) = columns (userData s)"
    by (auto simp: Let_def alloc_def updateHistory_def split: if_splits prod.splits)
  from False have r: "nat r < length (rows (userData s))" by auto
  with inv have "assignment_in_range ?n ?row"
    by (simp add: table_invariant_def table_rows_def list_all_length)
  with False have x: "assignment_in_range ?n ?x"
    by (simp add: assignment_in_range_def)
  have "table_invariant (heap s @ ?ext) (userData s1)"
    using inv ok r x emptyRow_in_range [of ?n ?n]
      set_update_new [of "rows (userData s)" "nat r" "heap s" 0]
      set_update_append_new [of "rows (userData s)" "nat r" "heap s"]
    by (intro invariant_new_rows [where t = "userData s"]) (auto simp: s1)
  then show ?thesis by (simp add: s1)
qed

lemma invariant_setAssignment:
  assumes inv: "table_invariant (heap s) (userData s)" and ok: "refs_ok (heap s) (userData s)"
      and run: "simulationReducer INITIAL s (SET_ASSIGNMENT r k) = Inr s1"
  shows "table_invariant (heap s1) (userData s1)"
proof (cases "r < 0 \<or> r \<ge> int (length (rows (userData s)))
              \<or> (k \<noteq> None \<and> (the k < 0 \<or> the k \<ge> int (length (columns (userData s)))))")
  case True
  with inv run show ?thesis by (auto simp: setError_def Let_def split: if_splits)
next
  case False
  let ?n = "length (columns (userData s))"
  let ?row = "heap s ! (rows (userData s) ! nat r)"
  let ?last = "r = int (length (rows (userData s))) - 1"
  let ?x = "?row\<lparr>assignment := (case k of None \<Rightarrow> None | Some j \<Rightarrow> Some (j mod int ?n))\<rparr>"
  let ?ext = "[?x] @ (if ?last then [emptyRow ?n] else [])"
  from False run have s1: "heap s1 = heap s @ ?ext"
      "rows (userData s1) = (rows (userData s))[nat r := length (heap s)]
          @ (if ?last then [Suc (length (heap s))] else [])"
      "columns (userData s1) = columns (userData s)"
    by (auto simp: Let_def alloc_def updateHistory_def split: if_splits prod.splits)
  from False have r: "nat r < length (rows (userData s))" by auto
  from False have x: "assignment_in_range ?n ?x"
    by (auto simp: assignment_in_range_def split: option.splits)
  have "table_invariant (heap s @ ?ext) (userData s1)"
    using inv ok r x emptyRow_in_range [of ?n ?n]
      set_update_new [of "rows (userData s)" "nat r" "heap s" 0]
      set_update_append_new [of "rows (userData s)" "nat r" "heap s"]
    by (intro invariant_new_rows [where t = "userData s"]) (auto simp: s1)
  then show ?thesis by (simp add: s1)
qed

lemma invariant_addRow:
  assumes inv: "table_invariant (heap s) (userData s)" and ok: "refs_ok (heap s) (userData s)"
      and run: "simulationReducer INITIAL s ADD_ROW = Inr s1"
  shows "table_invariant (heap s1) (userData s1)"
proof -
  let ?n = "length (columns (userData s))"
  let ?h1 = "heap s @ [emptyRow ?n]"
  let ?l = "last (rows (userData s))"
  from inv have ne: "rows (userData s) \<noteq> []" and n: "2 \<le> ?n"
    by (auto simp: table_invariant_def)
  with run have s1: "heap s1 = ?h1[?l := (?h1 ! ?l)\<lparr>assignment := Some 1\<rparr>]"
      "rows (userData s1) = rows (userData s) @ [length (heap s)]"
      "columns (userData s1) = columns (userData s)"
    by (auto simp: Let_def alloc_def updateHistory_def)
  have base: "table_invariant ?h1 (userData s1)"
    using inv ok emptyRow_in_range [of ?n ?n]
    by (intro invariant_new_rows [where t = "userData s"]) (auto simp: s1)
  have "assignment_in_range ?n (heap s1 ! a)" if "a \<in> set (rows (userData s1))" for a
  proof -
    from that base have old: "assignment_in_range ?n (?h1 ! a)"
      by (auto simp: table_invariant_def table_rows_def list_all_iff s1)
    show ?thesis
    proof (cases "a = ?l \<and> ?l < length ?h1")
      case True
      with n show ?thesis by (simp add: s1 assignment_in_range_def)
    next
      case False
      with old show ?thesis
        by (cases "?l < length ?h1") (auto simp: s1 list_update_beyond not_less)
    qed
  qed
  with base show ?thesis
    by (simp add: table_invariant_def table_rows_def list_all_iff s1)
qed

lemma invariant_removeColumn:
  assumes inv: "table_invariant (heap s) (userData s)"
      and safe: "i \<noteq> 0 \<or> list_all (\<lambda>row. assignment row \<noteq> Some 0) (table_rows (heap s) (userData s))"
      and run: "simulationReducer INITIAL s (REMOVE_COLUMN i) = Inr s1"
  shows "table_invariant (heap s1) (userData s1)"
proof (cases "i < 0 \<or> i \<ge> int (length (columns (userData s))) \<or> length (columns (userData s)) \<le> 2")
  case True
  with inv run show ?thesis by (auto simp: setError_def Let_def split: if_splits)
next
  case False
  then have i: "0 \<le> i" "i < int (length (columns (userData s)))" "2 < length (columns (userData s))"
    by auto
  then have len: "length (remove_index i (columns (userData s))) = length (columns (userData s)) - 1"
    by (simp add: length_remove_index)
  from safe have safe': "\<forall>j<length (rows (userData s)).
      i \<noteq> 0 \<or> assignment (heap s ! (rows (userData s) ! j)) \<noteq> Some 0"
    by (auto simp: table_rows_def list_all_length)
  from inv have inv': "\<forall>j<length (rows (userData s)). \<forall>k.
      assignment (heap s ! (rows (userData s) ! j)) = Some k
        \<longrightarrow> 0 \<le> k \<and> k < int (length (columns (userData s)))"
    and ne: "1 \<le> length (rows (userData s))"
    by (simp_all add: table_invariant_iff)
  from False run have s1: "userData s1 = (userData s)
       \<lparr>rows := [length (heap s) ..< length (heap s) + length (rows (userData s))],
        columns := remove_index i (columns (userData s)),
        colorStack := colorStack (userData s) @ [color (columns (userData s) ! nat i)]\<rparr>"
     "heap s1 = heap s @ map (\<lambda>a. (heap s ! a)
          \<lparr>data := remove_index i (data (heap s ! a)),
           assignment := (case assignment (heap s ! a) of None \<Rightarrow> None
              | Some k \<Rightarrow> if k \<ge> i then Some (k - 1) else Some k)\<rparr>) (rows (userData s))"
    by (auto simp: Let_def alloc_map_def updateHistory_def)
  show ?thesis
    unfolding table_invariant_iff s1
  proof (intro conjI allI impI)
    fix j k
    assume j: "j < length (rows ((userData s)
       \<lparr>rows := [length (heap s) ..< length (heap s) + length (rows (userData s))],
        columns := remove_index i (columns (userData s)),
        colorStack := colorStack (userData s) @ [color (columns (userData s) ! nat i)]\<rparr>))"
      and k: "assignment ((heap s @ map (\<lambda>a. (heap s ! a)
          \<lparr>data := remove_index i (data (heap s ! a)),
           assignment := (case assignment (heap s ! a) of None \<Rightarrow> None
              | Some k \<Rightarrow> if k \<ge> i then Some (k - 1) else Some k)\<rparr>) (rows (userData s)))
         ! (rows ((userData s)
       \<lparr>rows := [length (heap s) ..< length (heap s) + length (rows (userData s))],
        columns := remove_index i (columns (userData s)),
        colorStack := colorStack (userData s) @ [color (columns (userData s) ! nat i)]\<rparr>) ! j)) = Some k"
    from j have j': "j < length (rows (userData s))" by simp
    from k j' obtain k0 where k0: "assignment (heap s ! (rows (userData s) ! j)) = Some k0"
      "k = (if k0 \<ge> i then k0 - 1 else k0)"
      by (auto simp: nth_append split: option.splits if_splits)
    from inv' j' k0 have r: "0 \<le> k0" "k0 < int (length (columns (userData s)))" by auto
    from safe' j' k0 have "i \<noteq> 0 \<or> k0 \<noteq> 0" by auto
    with r k0 i show "0 \<le> k" by auto
    from r k0 i show "k < int (length (columns ((userData s)
       \<lparr>rows := [length (heap s) ..< length (heap s) + length (rows (userData s))],
        columns := remove_index i (columns (userData s)),
        colorStack := colorStack (userData s) @ [color (columns (userData s) ! nat i)]\<rparr>)))"
      by (auto simp: len)
  qed (use i ne in \<open>simp_all add: len\<close>)
qed

lemma invariant_preserved:
  assumes inv: "table_invariant (heap s) (userData s)" and ok: "refs_ok (heap s) (userData s)"
      and run: "simulationReducer INITIAL s a = Inr s1"
      and a: "\<forall>p. a \<noteq> SET_USER_DATA p" "a \<noteq> RESET_USER_DATA" "a \<noteq> UNDO" "a \<noteq> REDO"
      and del: "\<forall>i. a = DELETE_ROW i \<longrightarrow> 2 \<le> length (rows (userData s))"
      and rem: "\<forall>i. a = REMOVE_COLUMN i \<longrightarrow>
                  i \<noteq> 0 \<or> list_all (\<lambda>row. assignment row \<noteq> Some 0)
                                     (table_rows (heap s) (userData s))"
  shows "table_invariant (heap s1) (userData s1)"
proof (cases a)
  case EMPTY_USER_DATA
  with inv run show ?thesis by (simp only: invariant_emptyUserData)
next
  case ADD_ROW
  with inv ok run show ?thesis by (simp only: invariant_addRow)
next
  case (DELETE_ROW i)
  with inv ok run del show ?thesis by (blast intro: invariant_deleteRow)
next
  case (UPDATE_CELL r c v)
  with inv ok run show ?thesis by (blast intro: invariant_updateCell)
next
  case (SET_BLOCK r b)
  with inv ok run show ?thesis by (blast intro: invariant_setBlock)
next
  case (SET_ASSIGNMENT r k)
  with inv ok run show ?thesis by (blast intro: invariant_setAssignment)
next
  case (RENAME_COLUMN i n)
  with inv run show ?thesis by (blast intro: invariant_renameColumn)
next
  case (ADD_COLUMN n)
  with inv run show ?thesis by (blast intro: invariant_addColumn)
next
  case (REMOVE_COLUMN i)
  with inv run rem show ?thesis by (blast intro: invariant_removeColumn)
next
  case (SET_SIMULATION_SPEED x)
  with inv run show ?thesis by (auto simp: setError_def split: if_splits)
next
  case (SET_SELECTED_TEST_STATISTIC x)
  with inv run show ?thesis by (auto simp: setError_def split: if_splits)
next
  case (SET_TOTAL_SIMULATIONS x)
  with inv run show ?thesis by (auto simp: setError_def split: if_splits)
next
  case (SET_P_VALUE_TYPE x)
  with inv run show ?thesis by (auto simp: setError_def split: if_splits)
next
  case START_SIMULATION
  with inv run show ?thesis by (auto simp: setError_def Let_def split: if_splits)
next
  case PAUSE_SIMULATION
  with inv run show ?thesis by (auto simp: setError_def split: if_splits)
next
  case (SET_P_VALUE x)
  with inv run show ?thesis by (auto simp: setError_def split: if_splits)
qed (use inv run a in \<open>auto simp: setError_def\<close>)

text \<open>
  C2 at \<open>removeColumn\<close> and \<open>deleteRow\<close>. Both tables below satisfy the invariants and both
  operations succeed. Removing column 0 from a table with a row assigned to column 0 leaves
  that row with the assignment -1, which is no column index. Deleting the only (staging)
  row leaves a table without rows, on which the next \<open>addRow\<close> throws.
\<close>

theorem invariant_broken:
  "table_invariant (heap threeColumns) (userData threeColumns)
   \<and> error (projr (simulationReducer template threeColumns (REMOVE_COLUMN 0))) = None
   \<and> tableAfter (simulationReducer template threeColumns (REMOVE_COLUMN 0))
       = Some ([\<lparr>name = ''B'', color = ''text-red-500''\<rparr>, \<lparr>name = ''C'', color = ''text-green-500''\<rparr>],
               [\<lparr>data = [Some 2, Some 3], assignment = Some (- 1), block = None\<rparr>,
                \<lparr>data = [None, None], assignment = None, block = None\<rparr>],
               [''text-yellow-500'', ''text-blue-500''])
   \<and> \<not> invariantAfter (simulationReducer template threeColumns (REMOVE_COLUMN 0))
   \<and> table_invariant (heap state0) (userData state0)
   \<and> error (projr (simulationReducer template state0 (DELETE_ROW 0))) = None
   \<and> tableAfter (simulationReducer template state0 (DELETE_ROW 0))
       = Some (columns template, [], colorStack template)
   \<and> \<not> invariantAfter (simulationReducer template state0 (DELETE_ROW 0))
   \<and> dispatchAll template state0 [DELETE_ROW 0, ADD_ROW] = Inl TypeError"
  by (simp add: threeColumns_def state0_def template_def reducer_defs table_invariant_def
        invariantAfter_def assignment_in_range_def numeral_2_eq_2 numeral_3_eq_3)

end
